theory Spec2Isabelle
  imports Main "HOL-Library.Sublist" "HOL-Library.AList"
begin

section \<open>A model of mccon.py: the two console sinks and their coordination\<close>

text \<open>
  The module replaces the process's standard output and standard error by two objects,
  \<^verbatim>\<open>MCConOut\<close> and \<^verbatim>\<open>MCConErr\<close>, that mirror what is written to a log file and
  decide what reaches the real devices. All sink code runs inside \<^verbatim>\<open>with lock:\<close> on one
  re-entrant lock, so each call of a sink method is one atomic transition of the state
  below; the threads of the program and the \<^verbatim>\<open>threading.Timer\<close> callbacks interleave
  at the granularity of these calls.

  Effects on the outside world are recorded as a trace of events, in the order in which
  the code performs them.
\<close>

subsection \<open>Values, devices, events\<close>

abbreviation NL :: char where
  "NL \<equiv> CHR 0x0A"

text \<open>The exceptions that the modelled code can raise; \<open>Exc\<close> is any exception raised
  by caller code inside a scoped block.\<close>

datatype exn = UnboundLocalError | AttributeError | ValueError | Exc string

text \<open>\<^verbatim>\<open>old_stdout\<close> and \<^verbatim>\<open>old_stderr\<close>, the real devices saved at import.\<close>

datatype stream = StdOut | StdErr

datatype sink = OutSink | ErrSink

text \<open>An open log file is identified by the path it was opened with.\<close>

type_synonym handle = string

datatype event =
    DevWrite stream string      \<comment> \<open>\<^verbatim>\<open>self.old.write(s)\<close>\<close>
  | LogWrite sink handle string \<comment> \<open>\<^verbatim>\<open>self.log.write(s)\<close>, tagged with the sink that called it\<close>
  | LogFlush handle             \<comment> \<open>\<^verbatim>\<open>self.log.flush()\<close>\<close>
  | LogOpen handle              \<comment> \<open>\<^verbatim>\<open>open(log, 'a')\<close>\<close>
  | LogClose handle             \<comment> \<open>\<^verbatim>\<open>log_file.close()\<close>\<close>
  | TraceDump stream exn        \<comment> \<open>\<^verbatim>\<open>traceback.print_exc(file=self.old)\<close>\<close>

text \<open>The value of the module-level variable \<^verbatim>\<open>log_file\<close>: \<^verbatim>\<open>None\<close>, a file object,
  or \<^verbatim>\<open>False\<close> (which \<^verbatim>\<open>close()\<close> stores).\<close>

datatype logvar = LNone | LFile handle | LFalse

subsection \<open>The colour table\<close>

record palette =
  PROMPT_COLOUR :: string
  USER_INPUT_COLOUR :: string
  DISABLED_COLOUR :: string
  NO_COLOUR :: string
  ERROR_COLOUR :: string
  WARN_COLOUR :: string
  STAT_COLOUR :: string
  DULL_COLOUR :: string
  USER_COLOUR :: string
  HIGHLIGHT_COLOUR :: string
  LOWLIGHT_COLOUR :: string
  STDERR_PREFIX :: string
  STDERR_HEADER :: string

text \<open>\<^verbatim>\<open>str(code)\<close> on a non-negative integer.\<close>

fun str_nat :: "nat \<Rightarrow> string" where
  "str_nat n =
     (if n < 10 then [char_of (48 + n)]
      else str_nat (n div 10) @ [char_of (48 + n mod 10)])"

declare str_nat.simps [simp del]

definition gen_color :: "nat \<Rightarrow> bool \<Rightarrow> string" where
  "gen_color code bright =
     [CHR 0x1B, CHR ''[''] @ str_nat code @ (if bright then '';1m'' else ''m'')"

definition colour_scheme :: palette where
  "colour_scheme =
     (let no_colour = gen_color 0 False; error_colour = gen_color 31 True in
      \<lparr> PROMPT_COLOUR = gen_color 36 False,
        USER_INPUT_COLOUR = gen_color 36 True,
        DISABLED_COLOUR = gen_color 30 True,
        NO_COLOUR = no_colour,
        ERROR_COLOUR = error_colour,
        WARN_COLOUR = gen_color 33 True,
        STAT_COLOUR = gen_color 37 False,
        DULL_COLOUR = gen_color 32 False,
        USER_COLOUR = gen_color 32 True,
        HIGHLIGHT_COLOUR = gen_color 35 True,
        LOWLIGHT_COLOUR = gen_color 30 True,
        STDERR_PREFIX = no_colour @ gen_color 41 False @ gen_color 30 False @ ''+''
                          @ no_colour @ ''    '' @ error_colour,
        STDERR_HEADER = [NL] @ no_colour @ gen_color 41 False @ gen_color 30 False @ '''' \<rparr>)"

definition plain_scheme :: palette where
  "plain_scheme =
     \<lparr> PROMPT_COLOUR = '''', USER_INPUT_COLOUR = '''', DISABLED_COLOUR = '''',
       NO_COLOUR = '''', ERROR_COLOUR = '''', WARN_COLOUR = '''', STAT_COLOUR = '''',
       DULL_COLOUR = '''', USER_COLOUR = '''', HIGHLIGHT_COLOUR = '''',
       LOWLIGHT_COLOUR = '''', STDERR_PREFIX = ''+    '', STDERR_HEADER = [NL] \<rparr>"

subsection \<open>The sinks and the module state\<close>

text \<open>A record of the Output Sink's queue:
  \<^verbatim>\<open>(self.file_only, text, self.process_text(text), (self.user and user_mode) or not user_mode)\<close>.\<close>

type_synonym write_record = "bool \<times> string \<times> string \<times> bool"

text \<open>A Python dictionary from words to an optional colour, in iteration order.\<close>

type_synonym wordmap = "(string \<times> string option) list"

text \<open>The attributes that both classes set in \<^verbatim>\<open>__init__\<close> under the same names; the
  queue holds write records in \<^verbatim>\<open>MCConOut\<close> and raw strings in \<^verbatim>\<open>MCConErr\<close>.\<close>

record 'q sink_base =
  old :: stream
  log :: "handle option"
  user :: bool
  error :: bool
  warn :: bool
  file_only :: bool
  queue :: "'q list"

record MCConOut = "write_record sink_base" +
  high_words :: wordmap
  low_words :: wordmap
  last_char :: "char option"   \<comment> \<open>\<^verbatim>\<open>self.last\<close>\<close>
  allowed :: bool

record MCConErr = "string sink_base" +
  print_header :: bool
  t :: "bool option"           \<comment> \<open>\<^verbatim>\<open>self.t\<close>: the Timer last started, by its \<^verbatim>\<open>print_anyway\<close> argument\<close>
  msg :: string

text \<open>The module-level variables. \<open>boot\<close> is the state once the module is imported;
  \<^verbatim>\<open>use_colour\<close> and the colour names are unbound until \<^verbatim>\<open>init\<close> assigns them, and
  nothing reads them before.\<close>

record boot =
  log_file :: logvar
  user_mode :: bool
  print_log_name :: bool
  highlights :: wordmap
  prefix :: string
  stat_highlight :: "(string \<times> string) list"
  use_colour :: bool
  colours :: palette
  trace :: "event list"

text \<open>\<open>sys\<close> is the state after \<^verbatim>\<open>init\<close> has bound \<^verbatim>\<open>mccon_out\<close> and \<^verbatim>\<open>mccon_err\<close>.
  \<open>timers\<close> are the started \<^verbatim>\<open>Timer\<close> threads that have not fired yet, each with the
  argument it will pass to \<^verbatim>\<open>write_buffer\<close>.\<close>

record sys = boot +
  mccon_out :: MCConOut
  mccon_err :: MCConErr
  installed :: bool            \<comment> \<open>\<^verbatim>\<open>sys.stdout\<close>, \<^verbatim>\<open>sys.stderr\<close> are the sinks\<close>
  timers :: "bool list"

definition SEPARATOR :: string where
  "SEPARATOR = ''|''"

definition emit :: "event \<Rightarrow> 'a boot_scheme \<Rightarrow> 'a boot_scheme" where
  "emit e s = s\<lparr>trace := trace s @ [e]\<rparr>"

definition set_allowed :: "bool \<Rightarrow> sys \<Rightarrow> sys" where
  "set_allowed b s = s\<lparr>mccon_out := (mccon_out s)\<lparr>allowed := b\<rparr>\<rparr>"

text \<open>\<^verbatim>\<open>self.t = Timer(timeout, self.write_buffer, args=[b]); self.t.start()\<close>\<close>

definition start_timer :: "bool \<Rightarrow> sys \<Rightarrow> sys" where
  "start_timer b s = s\<lparr>mccon_err := (mccon_err s)\<lparr>t := Some b\<rparr>, timers := timers s @ [b]\<rparr>"

subsection \<open>MCConErr\<close>

text \<open>The test \<^verbatim>\<open>not self.file_only and ((self.user and user_mode) or not user_mode)\<close>,
  which \<^verbatim>\<open>write_buffer\<close> spells out twice.\<close>

definition err_visible :: "sys \<Rightarrow> bool" where
  "err_visible s \<longleftrightarrow>
     \<not> file_only (mccon_err s) \<and> ((user (mccon_err s) \<and> user_mode s) \<or> \<not> user_mode s)"

text \<open>\<^verbatim>\<open>text.replace('\n', '\n' + STDERR_PREFIX)\<close>\<close>

definition prefix_lines :: "string \<Rightarrow> string \<Rightarrow> string" where
  "prefix_lines pre text = concat (map (\<lambda>c. if c = NL then NL # pre else [c]) text)"

definition MCConErr_process_text :: "sys \<Rightarrow> string \<Rightarrow> string" where
  "MCConErr_process_text s text =
     (let text' = prefix_lines (STDERR_PREFIX (colours s)) text in
      if use_colour s then
        (let msg_col = (if error (mccon_err s) then ERROR_COLOUR (colours s)
                        else WARN_COLOUR (colours s));
             msg_col = (if user (mccon_err s) then USER_COLOUR (colours s) else msg_col)
         in NO_COLOUR (colours s) @ msg_col @ text' @ NO_COLOUR (colours s))
      else text')"

text \<open>\<^verbatim>\<open>MCConErr.flush\<close> is \<^verbatim>\<open>self.log.flush()\<close> with no test of \<^verbatim>\<open>self.log\<close>: on
  \<^verbatim>\<open>None\<close> the attribute access raises.\<close>

definition MCConErr_flush :: "sys \<Rightarrow> (exn \<times> sys) + sys" where
  "MCConErr_flush s =
     (case log (mccon_err s) of
        None \<Rightarrow> Inl (AttributeError, s)
      | Some h \<Rightarrow> Inr (emit (LogFlush h) s))"

text \<open>The handler of the dequeue's timeout (the inner \<^verbatim>\<open>except:\<close> of \<^verbatim>\<open>write_buffer\<close>).\<close>

definition err_on_timeout :: "sys \<Rightarrow> (exn \<times> sys) + sys" where
  "err_on_timeout s =
     (let r = (if err_visible s then
                 (let s1 = (case log (mccon_err s) of
                              None \<Rightarrow> s
                            | Some h \<Rightarrow> emit (LogWrite ErrSink h [NL]) s);
                      s2 = emit (DevWrite (old (mccon_err s1)) [NL]) s1
                  in MCConErr_flush s2)
               else Inr s)
      in case r of
           Inl x \<Rightarrow> Inl x
         | Inr s3 \<Rightarrow> Inr (set_allowed True s3))"

text \<open>The body of \<^verbatim>\<open>while True:\<close> for an item that \<^verbatim>\<open>self.queue.get(True, timeout)\<close>
  returned, after the item has left the queue.\<close>

definition err_emit_item :: "string \<Rightarrow> sys \<Rightarrow> (exn \<times> sys) + sys" where
  "err_emit_item text s =
     (let s1 = (case log (mccon_err s) of
                  None \<Rightarrow> s
                | Some h \<Rightarrow> emit (LogWrite ErrSink h text) s);
          s2 = (if err_visible s1
                then emit (DevWrite (old (mccon_err s1)) (MCConErr_process_text s1 text)) s1
                else s1)
      in if NL \<in> set text then MCConErr_flush s2 else Inr s2)"

text \<open>The flush loop. It runs with the lock held, so no other thread can put an item between
  two dequeues: \<^verbatim>\<open>get(True, timeout)\<close> returns the head while the queue is not empty and
  times out once it is. The first argument is the queue's content, which the state carries
  as well.\<close>

fun err_loop :: "string list \<Rightarrow> sys \<Rightarrow> (exn \<times> sys) + sys" where
  "err_loop [] s = err_on_timeout (set_allowed False s)"
| "err_loop (text # rest) s =
     (let s1 = set_allowed False s;
          s2 = s1\<lparr>mccon_err := (mccon_err s1)\<lparr>queue := rest\<rparr>\<rparr>
      in case err_emit_item text s2 of
           Inl x \<Rightarrow> Inl x
         | Inr s3 \<Rightarrow> err_loop rest s3)"

definition write_buffer :: "bool \<Rightarrow> sys \<Rightarrow> sys" where
  "write_buffer print_anyway s =
     (let s1 = s\<lparr>mccon_err := (mccon_err s)\<lparr>t := None\<rparr>\<rparr> in
      if queue (mccon_err s1) = [] then s1
      else if \<not> print_anyway \<and> last_char (mccon_out s1) \<noteq> Some NL then start_timer True s1
      else
        (case err_loop (queue (mccon_err s1)) s1 of
           Inl (x, s2) \<Rightarrow> set_allowed True (emit (TraceDump (old (mccon_err s2)) x) s2)
         | Inr s2 \<Rightarrow> set_allowed True s2))"

text \<open>\<^verbatim>\<open>_logprefix()\<close> with \<^verbatim>\<open>typ=None\<close>; \<open>now\<close> is
  \<^verbatim>\<open>datetime.now().strftime(datetime_format[0])\<close>, cut by \<^verbatim>\<open>[:-3]\<close>.\<close>

definition logprefix :: "string \<Rightarrow> 'a boot_scheme \<Rightarrow> string" where
  "logprefix now s = prefix s @ SEPARATOR @ take (length now - 3) now @ SEPARATOR"

definition err_put :: "string \<Rightarrow> sys \<Rightarrow> sys" where
  "err_put x s = s\<lparr>mccon_err := (mccon_err s)\<lparr>queue := queue (mccon_err s) @ [x]\<rparr>\<rparr>"

definition stderr_header :: "string \<Rightarrow> sys \<Rightarrow> string" where
  "stderr_header now s =
     STDERR_HEADER (colours s) @ logprefix now s @ msg (mccon_err s)
       @ NO_COLOUR (colours s) @ [NL]"

definition MCConErr_write :: "string \<Rightarrow> string \<Rightarrow> sys \<Rightarrow> sys" where
  "MCConErr_write now text s =
     (let s1 = (if queue (mccon_err s) = [] \<and> print_header (mccon_err s)
                then err_put (stderr_header now s) s else s);
          s2 = err_put text s1
      in if t (mccon_err s2) = None then start_timer False s2 else s2)"

subsection \<open>MCConOut\<close>

text \<open>\<^verbatim>\<open>txt.split(word)\<close>. For a separator that is not empty the result is the list of
  the pieces between the occurrences of the separator, found from the left and not
  overlapping; it has at least one entry. On the empty separator \<^verbatim>\<open>str.split\<close> raises
  \<^verbatim>\<open>ValueError: empty separator\<close>. \<open>split_from sep piece rest\<close> scans \<open>rest\<close> with
  \<open>piece\<close> the text read since the last occurrence.\<close>

fun split_from :: "string \<Rightarrow> string \<Rightarrow> string \<Rightarrow> string list" where
  "split_from sep piece [] = [piece]"
| "split_from sep piece (c # cs) =
     (if take (length sep) (c # cs) = sep
      then piece # split_from sep [] (drop (length sep - 1) cs)
      else split_from sep (piece @ [c]) cs)"

definition py_split :: "string \<Rightarrow> string \<Rightarrow> exn + string list" where
  "py_split txt sep = (if sep = [] then Inl ValueError else Inr (split_from sep [] txt))"

text \<open>The dictionary \<^verbatim>\<open>word_col_map\<close>, from words to colours. A dictionary is an
  association list with one entry for each key; the model iterates it in the order of that
  list, and \<^verbatim>\<open>keys()\<close> is the list of its keys in that order (Python 2 leaves the order
  of a dictionary open).\<close>

type_synonym colmap = "(string \<times> string) list"

text \<open>The inner loop \<^verbatim>\<open>for word in wmap:\<close> of \<^verbatim>\<open>process_text\<close>, for one of the four
  maps and its default colour.\<close>

definition add_words :: "nat \<Rightarrow> wordmap \<Rightarrow> string \<Rightarrow> colmap \<Rightarrow> colmap" where
  "add_words text_len wmap def_col word_col_map =
     foldl (\<lambda>m word.
              if length word < text_len \<and> word \<notin> set (map fst m)
              then (let col = (case map_of wmap word of
                                 Some (Some c) \<Rightarrow> c
                               | _ \<Rightarrow> def_col)
                    in AList.update word col m)
              else m)
       word_col_map (map fst wmap)"

text \<open>\<^verbatim>\<open>word_col_map.get(word)\<close>, as \<^verbatim>\<open>'%s'\<close> prints it.\<close>

definition get_col :: "colmap \<Rightarrow> string \<Rightarrow> string" where
  "get_col word_col_map word =
     (case map_of word_col_map word of Some c \<Rightarrow> c | None \<Rightarrow> ''None'')"

text \<open>The loop \<^verbatim>\<open>for txt,col in split_text:\<close> for one word: every piece is split at the
  word, and the occurrences of the word come back with the word's colour. The result is
  \<^verbatim>\<open>new_split_text\<close>, unless a \<^verbatim>\<open>split\<close> raises.\<close>

fun split_pass :: "colmap \<Rightarrow> string \<Rightarrow> (string \<times> string) list \<Rightarrow> exn + (string \<times> string) list" where
  "split_pass word_col_map word [] = Inr []"
| "split_pass word_col_map word ((txt, col) # rest) =
     (case py_split txt word of
        Inl e \<Rightarrow> Inl e
      | Inr split \<Rightarrow>
         (case split_pass word_col_map word rest of
            Inl e \<Rightarrow> Inl e
          | Inr new_split_text \<Rightarrow>
             Inr (concat (map (\<lambda>fragment. [(fragment, col), (word, get_col word_col_map word)])
                            (butlast split))
                  @ [(last split, col)] @ new_split_text)))"

text \<open>The loop \<^verbatim>\<open>for word in words:\<close>\<close>

fun split_words :: "colmap \<Rightarrow> string list \<Rightarrow> (string \<times> string) list \<Rightarrow> exn + (string \<times> string) list" where
  "split_words word_col_map [] split_text = Inr split_text"
| "split_words word_col_map (word # words) split_text =
     (case split_pass word_col_map word split_text of
        Inl e \<Rightarrow> Inl e
      | Inr new_split_text \<Rightarrow> split_words word_col_map words new_split_text)"

text \<open>\<^verbatim>\<open>MCConOut.process_text\<close>. With colour disabled it returns the text. With colour
  enabled it collects the highlighted words that are shorter than the text, adds the
  separator, and splits the text at each of them, longest first (\<^verbatim>\<open>sort(key=len)\<close> is
  stable, then \<^verbatim>\<open>reverse()\<close>). Nothing in the method catches the exception of a
  \<^verbatim>\<open>split\<close>.\<close>

definition MCConOut_process_text :: "sys \<Rightarrow> string \<Rightarrow> exn + string" where
  "MCConOut_process_text s text =
     (if use_colour s then
        (let text_len = length text;
             msg_col = (if user (mccon_out s) then USER_COLOUR (colours s)
                        else DULL_COLOUR (colours s));
             msg_col = (if warn (mccon_out s) then WARN_COLOUR (colours s) else msg_col);
             msg_col = (if error (mccon_out s) then ERROR_COLOUR (colours s) else msg_col);
             word_col_map =
               add_words text_len (map (\<lambda>(w, c). (w, Some c)) (stat_highlight s))
                   (HIGHLIGHT_COLOUR (colours s))
                 (add_words text_len (highlights s) (HIGHLIGHT_COLOUR (colours s))
                   (add_words text_len (low_words (mccon_out s)) (LOWLIGHT_COLOUR (colours s))
                     (add_words text_len (high_words (mccon_out s))
                        (HIGHLIGHT_COLOUR (colours s)) [])));
             word_col_map = AList.update SEPARATOR (DISABLED_COLOUR (colours s)) word_col_map;
             words = rev (sort_key length (map fst word_col_map))
         in case split_words word_col_map words [(text, msg_col)] of
              Inl e \<Rightarrow> Inl e
            | Inr split_text \<Rightarrow>
               Inr (concat (map (\<lambda>(txt, col). NO_COLOUR (colours s) @ col @ txt) split_text)))
      else Inr text)"

definition MCConOut_flush :: "sys \<Rightarrow> sys" where
  "MCConOut_flush s =
     (case log (mccon_out s) of
        None \<Rightarrow> s
      | Some h \<Rightarrow> emit (LogFlush h) s)"

text \<open>One iteration of \<^verbatim>\<open>while not self.queue.empty():\<close>, after the record has left the
  queue.\<close>

definition out_emit_record :: "write_record \<Rightarrow> sys \<Rightarrow> sys" where
  "out_emit_record r s =
     (case r of (fo, text, form_text, prnt) \<Rightarrow>
       (let s1 = (case log (mccon_out s) of
                    None \<Rightarrow> s
                  | Some h \<Rightarrow> emit (LogWrite OutSink h text) s);
            s2 = (if \<not> fo \<and> prnt then emit (DevWrite (old (mccon_out s1)) form_text) s1 else s1);
            s3 = (if NL \<in> set text then MCConOut_flush s2 else s2)
        in if length text > 0
           then s3\<lparr>mccon_out := (mccon_out s3)\<lparr>last_char := Some (last text)\<rparr>\<rparr>
           else s3))"

fun out_drain :: "write_record list \<Rightarrow> sys \<Rightarrow> sys" where
  "out_drain [] s = s"
| "out_drain (r # rest) s =
     out_drain rest (out_emit_record r (s\<lparr>mccon_out := (mccon_out s)\<lparr>queue := rest\<rparr>\<rparr>))"

definition out_put :: "write_record \<Rightarrow> sys \<Rightarrow> sys" where
  "out_put r s = s\<lparr>mccon_out := (mccon_out s)\<lparr>queue := queue (mccon_out s) @ [r]\<rparr>\<rparr>"

text \<open>\<^verbatim>\<open>MCConOut.write\<close> after the \<^verbatim>\<open>if text is not None:\<close> statement: the test of
  \<^verbatim>\<open>allowed\<close>, the drain of the queue and the signal to the Error Sink.\<close>

definition out_after_put :: "sys \<Rightarrow> sys" where
  "out_after_put s1 =
     (if \<not> allowed (mccon_out s1) then s1
      else
        (let s2 = out_drain (queue (mccon_out s1)) s1
         in if last_char (mccon_out s2) = Some NL then write_buffer True s2 else s2))"

text \<open>\<^verbatim>\<open>MCConOut.write\<close>. The record is built before \<^verbatim>\<open>queue.put\<close> is called, so an
  exception of \<^verbatim>\<open>process_text\<close> leaves \<^verbatim>\<open>write\<close> with nothing queued; \<^verbatim>\<open>with lock:\<close>
  releases the lock and the exception reaches the caller.\<close>

definition MCConOut_write :: "string option \<Rightarrow> sys \<Rightarrow> (exn \<times> sys) + sys" where
  "MCConOut_write text s =
     (case text of
        None \<Rightarrow> Inr (out_after_put s)
      | Some txt \<Rightarrow>
         (case MCConOut_process_text s txt of
            Inl e \<Rightarrow> Inl (e, s)
          | Inr form_text \<Rightarrow>
             Inr (out_after_put
                    (out_put (file_only (mccon_out s), txt, form_text,
                              (user (mccon_out s) \<and> user_mode s) \<or> \<not> user_mode s) s))))"

text \<open>\<^verbatim>\<open>MCConOut.close\<close> and \<^verbatim>\<open>MCConErr.close\<close>\<close>

definition MCConOut_close :: "sys \<Rightarrow> sys" where
  "MCConOut_close s =
     (let s1 = MCConOut_flush s
      in if use_colour s1 then emit (DevWrite (old (mccon_out s1)) (NO_COLOUR (colours s1))) s1
         else s1)"

definition MCConErr_close :: "sys \<Rightarrow> (exn \<times> sys) + sys" where
  "MCConErr_close s =
     (case MCConErr_flush s of
        Inl x \<Rightarrow> Inl x
      | Inr s1 \<Rightarrow>
          Inr (if use_colour s1
               then emit (DevWrite (old (mccon_err s1)) (NO_COLOUR (colours s1))) s1
               else s1))"

subsection \<open>Scoped switches\<close>

text \<open>A function decorated with \<^verbatim>\<open>@contextmanager\<close> is a generator with one \<^verbatim>\<open>yield\<close>:
  the code before it runs on entry and may keep local variables, the code after it runs
  when the block ends normally. When the block raises, \<^verbatim>\<open>__exit__\<close> throws the exception
  into the generator at the \<^verbatim>\<open>yield\<close>; none of the switches encloses its \<^verbatim>\<open>yield\<close> in
  \<^verbatim>\<open>try\<close>, so the exception leaves the generator at once and the code after the
  \<^verbatim>\<open>yield\<close> does not run.\<close>

type_synonym 'l ctxmgr = "(sys \<Rightarrow> 'l \<times> sys) \<times> ('l \<Rightarrow> sys \<Rightarrow> sys)"

type_synonym block = "sys \<Rightarrow> (exn \<times> sys) + sys"

definition with_ctx :: "'l ctxmgr \<Rightarrow> block \<Rightarrow> block" where
  "with_ctx cm body s =
     (case cm of (before_yield, after_yield) \<Rightarrow>
       (case before_yield s of (l, s1) \<Rightarrow>
         (case body s1 of
            Inl x \<Rightarrow> Inl x
          | Inr s2 \<Rightarrow> Inr (after_yield l s2))))"


definition user_cm :: "unit ctxmgr" where
  "user_cm =
     (\<lambda>s. ((), s\<lparr>mccon_out := (mccon_out s)\<lparr>user := True\<rparr>\<rparr>),
      \<lambda>_ s. s\<lparr>mccon_out := (mccon_out s)\<lparr>user := False\<rparr>\<rparr>)"


text \<open>\<^verbatim>\<open>high_map[word] = None\<close> for each word of a list, starting from \<^verbatim>\<open>{}\<close>.\<close>

definition none_map :: "string list \<Rightarrow> wordmap" where
  "none_map ws = foldl (\<lambda>m w. AList.update w None m) [] ws"

definition highlight_cm :: "string list \<Rightarrow> string list \<Rightarrow> unit ctxmgr" where
  "highlight_cm hiwords lowords =
     (\<lambda>s. ((), s\<lparr>mccon_out := (mccon_out s)\<lparr>high_words := none_map hiwords,
                                             low_words := none_map lowords\<rparr>\<rparr>),
      \<lambda>_ s. s\<lparr>mccon_out := (mccon_out s)\<lparr>high_words := [], low_words := []\<rparr>\<rparr>)"





definition err_header_msg_cm :: "string \<Rightarrow> string ctxmgr" where
  "err_header_msg_cm m =
     (\<lambda>s. (msg (mccon_err s), s\<lparr>mccon_err := (mccon_err s)\<lparr>msg := m\<rparr>\<rparr>),
      \<lambda>old_err_msg s. s\<lparr>mccon_err := (mccon_err s)\<lparr>msg := old_err_msg\<rparr>\<rparr>)"

subsection \<open>init and close\<close>

text \<open>The statement \<^verbatim>\<open>print x\<close> on the installed sink: one \<^verbatim>\<open>write\<close> for the text and
  one for the line terminator. An exception of the first ends the statement.\<close>

definition print_stmt :: "string \<Rightarrow> sys \<Rightarrow> (exn \<times> sys) + sys" where
  "print_stmt x s =
     (case MCConOut_write (Some x) s of
        Inl e \<Rightarrow> Inl e
      | Inr s1 \<Rightarrow> MCConOut_write (Some [NL]) s1)"

text \<open>\<^verbatim>\<open>MCConOut(stream, log)\<close> and \<^verbatim>\<open>MCConErr(old, log, print_header)\<close>\<close>

definition new_MCConOut :: "stream \<Rightarrow> handle option \<Rightarrow> MCConOut" where
  "new_MCConOut stream lg =
     \<lparr> old = stream, log = lg, user = False, error = False, warn = False, file_only = False,
       queue = [], high_words = [], low_words = [], last_char = None, allowed = True \<rparr>"

definition new_MCConErr :: "stream \<Rightarrow> handle option \<Rightarrow> bool \<Rightarrow> MCConErr" where
  "new_MCConErr stream lg ph =
     \<lparr> old = stream, log = lg, user = False, error = True, warn = False, file_only = False,
       queue = [], print_header = ph, t = None, msg = [] \<rparr>"

text \<open>\<^verbatim>\<open>init\<close> declares \<^verbatim>\<open>prefix\<close>, \<^verbatim>\<open>use_colour\<close>, the colour names, \<^verbatim>\<open>mccon_out\<close>,
  \<^verbatim>\<open>mccon_err\<close> and \<^verbatim>\<open>print_log_name\<close> global, but not \<^verbatim>\<open>log_file\<close>. Since the body
  assigns \<^verbatim>\<open>log_file\<close>, the name is a local variable of \<^verbatim>\<open>init\<close>: it is bound only when
  the branch \<^verbatim>\<open>log is not None\<close> has run, reading it unbound raises, and the module-level
  \<^verbatim>\<open>log_file\<close> is never assigned. \<open>local_log_file\<close> is that local variable, \<open>None\<close>
  while unbound. Opening the file is taken to succeed.

  \<^verbatim>\<open>init\<close> can raise at two places: before the sinks exist, and then the state is still a
  \<open>boot\<close>; and in the announcement, when the sinks are bound and installed, and then the
  state is a \<open>sys\<close>, as the exception left it.\<close>

definition init ::
  "bool \<Rightarrow> string option \<Rightarrow> string \<Rightarrow> bool \<Rightarrow> bool \<Rightarrow> boot
     \<Rightarrow> (exn \<times> (boot + sys)) + sys" where
  "init colour lg default_prefix log_stderr print_stderr_header b =
     (let b1 = b\<lparr>prefix := default_prefix, use_colour := colour,
                 colours := (if colour then colour_scheme else plain_scheme)\<rparr>;
          b2 = b1\<lparr>stat_highlight :=
                    AList.update ''ERRO'' (ERROR_COLOUR (colours b1))
                      (AList.update ''WARN'' (WARN_COLOUR (colours b1))
                        (AList.update ''STAT'' (STAT_COLOUR (colours b1)) (stat_highlight b1)))\<rparr>;
          (local_log_file, b3) =
            (case lg of
               None \<Rightarrow> (None, b2)
             | Some path \<Rightarrow> (Some path, emit (LogOpen path) b2))
      in case local_log_file of
           None \<Rightarrow> Inl (UnboundLocalError, Inl b3)
         | Some h \<Rightarrow>
            (let s = boot.extend b3
                       \<lparr> mccon_out = new_MCConOut StdOut (Some h),
                         mccon_err = new_MCConErr StdErr (if log_stderr then Some h else None)
                                       print_stderr_header,
                         installed = True, timers = [] \<rparr>
             in if print_log_name s then
                  (case lg of
                     None \<Rightarrow> Inr s
                   | Some path \<Rightarrow>
                      (case with_ctx user_cm
                              (with_ctx (highlight_cm [path, default_prefix] [])
                                 (print_stmt (default_prefix @ '': begin logging to '' @ path)))
                              (s\<lparr>print_log_name := False\<rparr>) of
                         Inl (x, s') \<Rightarrow> Inl (x, Inr s')
                       | Inr s' \<Rightarrow> Inr s'))
                else Inr s))"

text \<open>\<^verbatim>\<open>print_exception()\<close>: \<^verbatim>\<open>traceback.print_exc(file=sys.stderr)\<close> writes the pieces
  \<open>tb\<close> of the trace to the installed Error Sink, inside \<^verbatim>\<open>err_header_msg\<close>.\<close>

definition print_exception :: "string \<Rightarrow> string list \<Rightarrow> sys \<Rightarrow> (exn \<times> sys) + sys" where
  "print_exception now tb =
     with_ctx (err_header_msg_cm ('' '' @ ''Exception Details'' @ '' ''))
       (\<lambda>s. Inr (foldl (\<lambda>s' piece. MCConErr_write now piece s') s tb))"

text \<open>\<^verbatim>\<open>close()\<close>. On \<^verbatim>\<open>log_file = False\<close> the call \<^verbatim>\<open>log_file.close()\<close> raises, and the
  handler prints the exception.\<close>

definition close :: "string \<Rightarrow> string list \<Rightarrow> sys \<Rightarrow> (exn \<times> sys) + sys" where
  "close now tb s =
     (let s1 = MCConOut_close s in
      case MCConErr_close s1 of
        Inl x \<Rightarrow> Inl x
      | Inr s2 \<Rightarrow>
         (case log_file s2 of
            LNone \<Rightarrow> Inr s2
          | LFile h \<Rightarrow> Inr ((emit (LogClose h) s2)\<lparr>log_file := LFalse\<rparr>)
          | LFalse \<Rightarrow>
             (case print_exception now tb s2 of
                Inl x \<Rightarrow> Inl x
              | Inr s3 \<Rightarrow> Inr (s3\<lparr>log_file := LFalse\<rparr>))))"

text \<open>The module state right after import.\<close>

definition boot0 :: boot where
  "boot0 =
     \<lparr> log_file = LNone, user_mode = False, print_log_name = True, highlights = [],
       prefix = ''mccon'', stat_highlight = [], use_colour = False, colours = plain_scheme,
       trace = [] \<rparr>"

subsection \<open>Runs of the system\<close>

text \<open>What the program's threads and the timers can do to the sinks, one locked call at a
  time: writes to either sink (an Error Sink write reads the clock for a possible header),
  a pending timer firing, and assignments to the visibility flags. The flags are assigned
  without the lock; a run orders each assignment before or after the locked calls of the
  other threads. An exception of \<^verbatim>\<open>MCConOut.write\<close> goes to the thread that called it;
  the other threads go on from the state in which the call ended.\<close>

datatype op =
    OutWrite "string option"
  | ErrWrite string string
  | TimerFire nat
  | SetUserMode bool
  | SetOutUser bool
  | SetOutFileOnly bool
  | SetErrUser bool
  | SetErrFileOnly bool

fun step :: "op \<Rightarrow> sys \<Rightarrow> sys" where
  "step (OutWrite text) s = (case MCConOut_write text s of Inl (x, s') \<Rightarrow> s' | Inr s' \<Rightarrow> s')"
| "step (ErrWrite now text) s = MCConErr_write now text s"
| "step (TimerFire i) s =
     (if i < length (timers s)
      then write_buffer (timers s ! i) (s\<lparr>timers := take i (timers s) @ drop (Suc i) (timers s)\<rparr>)
      else s)"
| "step (SetUserMode b) s = s\<lparr>user_mode := b\<rparr>"
| "step (SetOutUser b) s = s\<lparr>mccon_out := (mccon_out s)\<lparr>user := b\<rparr>\<rparr>"
| "step (SetOutFileOnly b) s = s\<lparr>mccon_out := (mccon_out s)\<lparr>file_only := b\<rparr>\<rparr>"
| "step (SetErrUser b) s = s\<lparr>mccon_err := (mccon_err s)\<lparr>user := b\<rparr>\<rparr>"
| "step (SetErrFileOnly b) s = s\<lparr>mccon_err := (mccon_err s)\<lparr>file_only := b\<rparr>\<rparr>"

definition run :: "op list \<Rightarrow> sys \<Rightarrow> sys" where
  "run ops s = foldl (\<lambda>s' x. step x s') s ops"

text \<open>What a trace shows: the strings written to a device, the events that touch a device
  at all (a dumped exception trace included), and the strings one sink wrote to the log.\<close>

fun dev_text :: "stream \<Rightarrow> event \<Rightarrow> string list" where
  "dev_text d (DevWrite d' x) = (if d' = d then [x] else [])"
| "dev_text d _ = []"

definition dev_writes :: "stream \<Rightarrow> event list \<Rightarrow> string list" where
  "dev_writes d es = concat (map (dev_text d) es)"

fun on_dev :: "stream \<Rightarrow> event \<Rightarrow> bool" where
  "on_dev d (DevWrite d' x) = (d' = d)"
| "on_dev d (TraceDump d' x) = (d' = d)"
| "on_dev d _ = False"

fun log_text :: "sink \<Rightarrow> event \<Rightarrow> string list" where
  "log_text k (LogWrite k' h x) = (if k' = k then [x] else [])"
| "log_text k _ = []"

definition log_writes :: "sink \<Rightarrow> event list \<Rightarrow> string list" where
  "log_writes k es = concat (map (log_text k) es)"

section \<open>Vocabulary of the properties\<close>

text \<open>The definitions of this section are not code of the module: they name what the
  theorems below talk about.\<close>

subsection \<open>Results and frames\<close>

text \<open>The state in which a call ended, whether it returned or raised.\<close>

definition res_state :: "(exn \<times> sys) + sys \<Rightarrow> sys" where
  "res_state r = (case r of Inl (x, s') \<Rightarrow> s' | Inr s' \<Rightarrow> s')"

text \<open>Events that only the Error Sink produces, given its device.\<close>

fun is_err_event :: "stream \<Rightarrow> event \<Rightarrow> bool" where
  "is_err_event d (DevWrite d' x) = (d' = d)"
| "is_err_event d (TraceDump d' x) = (d' = d)"
| "is_err_event d (LogWrite k h x) = (k = ErrSink)"
| "is_err_event d (LogFlush h) = True"
| "is_err_event d _ = False"

text \<open>\<open>err_only s s'\<close>: from \<open>s\<close> to \<open>s'\<close> only the Error Sink has acted. The trace
  has grown by events of the Error Sink; of the Output Sink at most \<^verbatim>\<open>allowed\<close> has
  changed; of the Error Sink at most the queue and the timer reference.\<close>

definition err_only :: "sys \<Rightarrow> sys \<Rightarrow> bool" where
  "err_only s s' \<longleftrightarrow>
     (\<exists>es a q tt tm.
        s' = s\<lparr>trace := trace s @ es,
               mccon_out := (mccon_out s)\<lparr>allowed := a\<rparr>,
               mccon_err := (mccon_err s)\<lparr>queue := q, t := tt\<rparr>,
               timers := tm\<rparr>
        \<and> list_all (is_err_event (old (mccon_err s))) es)"

subsection \<open>The events of an error block\<close>

text \<open>What the flush loop does for one dequeued item when the Error Sink has the log
  \<open>h\<close>, what it does on the timeout, and both for a whole queue.\<close>

definition err_item_events :: "sys \<Rightarrow> handle \<Rightarrow> string \<Rightarrow> event list" where
  "err_item_events s h text =
     LogWrite ErrSink h text
       # (if err_visible s then [DevWrite (old (mccon_err s)) (MCConErr_process_text s text)] else [])
       @ (if NL \<in> set text then [LogFlush h] else [])"

definition err_closer_events :: "sys \<Rightarrow> handle \<Rightarrow> event list" where
  "err_closer_events s h =
     (if err_visible s
      then [LogWrite ErrSink h [NL], DevWrite (old (mccon_err s)) [NL], LogFlush h] else [])"

definition err_block_events :: "sys \<Rightarrow> handle \<Rightarrow> string list \<Rightarrow> event list" where
  "err_block_events s h q = concat (map (err_item_events s h) q) @ err_closer_events s h"

definition flushed :: "event list \<Rightarrow> sys \<Rightarrow> sys" where
  "flushed es s =
     s\<lparr>trace := trace s @ es,
       mccon_out := (mccon_out s)\<lparr>allowed := True\<rparr>,
       mccon_err := (mccon_err s)\<lparr>queue := []\<rparr>\<rparr>"

text \<open>The device writes of the items of a block whose sink has no log.\<close>

definition err_dev_events :: "sys \<Rightarrow> string list \<Rightarrow> event list" where
  "err_dev_events s q = map (\<lambda>x. DevWrite (old (mccon_err s)) (MCConErr_process_text s x)) q"

subsection \<open>The events of a drained output queue\<close>

definition out_rec_events :: "handle option \<Rightarrow> stream \<Rightarrow> write_record \<Rightarrow> event list" where
  "out_rec_events lg d r =
     (case r of (fo, text, form_text, prnt) \<Rightarrow>
        (case lg of None \<Rightarrow> [] | Some h \<Rightarrow> [LogWrite OutSink h text])
        @ (if \<not> fo \<and> prnt then [DevWrite d form_text] else [])
        @ (if NL \<in> set text then (case lg of None \<Rightarrow> [] | Some h \<Rightarrow> [LogFlush h]) else []))"

definition drained_events :: "sys \<Rightarrow> write_record list \<Rightarrow> event list" where
  "drained_events s q = concat (map (out_rec_events (log (mccon_out s)) (old (mccon_out s))) q)"

definition last_after :: "char option \<Rightarrow> write_record list \<Rightarrow> char option" where
  "last_after c q =
     foldl (\<lambda>c r. case r of (fo, text, form_text, prnt) \<Rightarrow> if text = [] then c else Some (last text)) c q"

text \<open>The state after the drain of \<^verbatim>\<open>MCConOut.write\<close>, before the Error Sink is
  signalled.\<close>

definition drained :: "sys \<Rightarrow> sys" where
  "drained s =
     s\<lparr>trace := trace s @ drained_events s (queue (mccon_out s)),
       mccon_out := (mccon_out s)\<lparr>queue := [],
          last_char := last_after (last_char (mccon_out s)) (queue (mccon_out s))\<rparr>\<rparr>"

text \<open>The raw texts of queued records, and the formatted texts of those that are shown.\<close>

definition raw_texts :: "write_record list \<Rightarrow> string list" where
  "raw_texts q = map (\<lambda>r. case r of (fo, x, ft, prnt) \<Rightarrow> x) q"

definition shown_texts :: "write_record list \<Rightarrow> string list" where
  "shown_texts q = concat (map (\<lambda>r. case r of (fo, x, ft, prnt) \<Rightarrow> if \<not> fo \<and> prnt then [ft] else []) q)"

subsection \<open>When the formatter raises\<close>

text \<open>The keys of the four dictionaries that \<^verbatim>\<open>MCConOut.process_text\<close> reads, and the
  condition under which it raises: colour is enabled, the text is not empty, and the empty
  string is one of the keys.\<close>

definition highlight_words :: "sys \<Rightarrow> string list" where
  "highlight_words s =
     map fst (high_words (mccon_out s)) @ map fst (low_words (mccon_out s))
       @ map fst (highlights s) @ map fst (stat_highlight s)"

definition format_raises :: "sys \<Rightarrow> string \<Rightarrow> bool" where
  "format_raises s text \<longleftrightarrow> use_colour s \<and> text \<noteq> [] \<and> [] \<in> set (highlight_words s)"

subsection \<open>The scoped switches as one family\<close>

datatype switch =
    User | UserErr | Warn | Error | FileOnly
  | Highlight "string list" "string list" | Highmap wordmap wordmap | Pre string




text \<open>The state in which the body of a switch starts.\<close>

fun entered :: "switch \<Rightarrow> sys \<Rightarrow> sys" where
  "entered User s = s\<lparr>mccon_out := (mccon_out s)\<lparr>user := True\<rparr>\<rparr>"
| "entered UserErr s = s\<lparr>mccon_err := (mccon_err s)\<lparr>user := True\<rparr>\<rparr>"
| "entered Warn s = s\<lparr>mccon_out := (mccon_out s)\<lparr>warn := True\<rparr>\<rparr>"
| "entered Error s = s\<lparr>mccon_out := (mccon_out s)\<lparr>error := True\<rparr>\<rparr>"
| "entered FileOnly s = s\<lparr>mccon_out := (mccon_out s)\<lparr>file_only := True\<rparr>\<rparr>"
| "entered (Highlight hi lo) s =
     s\<lparr>mccon_out := (mccon_out s)\<lparr>high_words := none_map hi, low_words := none_map lo\<rparr>\<rparr>"
| "entered (Highmap hi lo) s = s\<lparr>mccon_out := (mccon_out s)\<lparr>high_words := hi, low_words := lo\<rparr>\<rparr>"
| "entered (Pre p) s = s\<lparr>prefix := p\<rparr>"


subsection \<open>Sample states\<close>

text \<open>The sinks as \<^verbatim>\<open>init\<close> builds them for the log file \<^verbatim>\<open>app.log\<close>, with colour
  disabled and the announcement already printed; and the same with no log for the Error
  Sink (\<^verbatim>\<open>log_stderr=False\<close>).\<close>

definition demo_sys :: sys where
  "demo_sys =
     boot.extend (boot0\<lparr>print_log_name := False\<rparr>)
       \<lparr> mccon_out = new_MCConOut StdOut (Some ''app.log''),
         mccon_err = new_MCConErr StdErr (Some ''app.log'') True,
         installed = True, timers = [] \<rparr>"

definition demo_sys_quiet_err :: sys where
  "demo_sys_quiet_err =
     boot.extend (boot0\<lparr>print_log_name := False\<rparr>)
       \<lparr> mccon_out = new_MCConOut StdOut (Some ''app.log''),
         mccon_err = new_MCConErr StdErr None True,
         installed = True, timers = [] \<rparr>"


section \<open>Properties\<close>

subsection \<open>Basic facts\<close>

lemma emit_simps [simp]:
  "trace (emit e s) = trace s @ [e]"
  "user_mode (emit e s) = user_mode s"
  "use_colour (emit e s) = use_colour s"
  "colours (emit e s) = colours s"
  "prefix (emit e s) = prefix s"
  "log_file (emit e s) = log_file s"
  "mccon_out (emit e s) = mccon_out s"
  "mccon_err (emit e s) = mccon_err s"
  "timers (emit e s) = timers s"
  by (simp_all add: emit_def)

lemma set_allowed_simps [simp]:
  "trace (set_allowed b s) = trace s"
  "user_mode (set_allowed b s) = user_mode s"
  "use_colour (set_allowed b s) = use_colour s"
  "colours (set_allowed b s) = colours s"
  "prefix (set_allowed b s) = prefix s"
  "log_file (set_allowed b s) = log_file s"
  "mccon_out (set_allowed b s) = (mccon_out s)\<lparr>allowed := b\<rparr>"
  "mccon_err (set_allowed b s) = mccon_err s"
  "timers (set_allowed b s) = timers s"
  by (simp_all add: set_allowed_def)

subsection \<open>The flush loop of a sink with a log\<close>

lemma err_visible_frame:
  "user_mode s' = user_mode s \<Longrightarrow> user (mccon_err s') = user (mccon_err s) \<Longrightarrow>
   file_only (mccon_err s') = file_only (mccon_err s) \<Longrightarrow> err_visible s' = err_visible s"
  by (simp add: err_visible_def)

lemma err_process_text_frame:
  "use_colour s' = use_colour s \<Longrightarrow> colours s' = colours s \<Longrightarrow>
   error (mccon_err s') = error (mccon_err s) \<Longrightarrow> user (mccon_err s') = user (mccon_err s) \<Longrightarrow>
   MCConErr_process_text s' = MCConErr_process_text s"
  by (rule ext) (simp add: MCConErr_process_text_def Let_def)

lemma err_item_events_frame:
  "use_colour s' = use_colour s \<Longrightarrow> colours s' = colours s \<Longrightarrow> user_mode s' = user_mode s \<Longrightarrow>
   error (mccon_err s') = error (mccon_err s) \<Longrightarrow> user (mccon_err s') = user (mccon_err s) \<Longrightarrow>
   file_only (mccon_err s') = file_only (mccon_err s) \<Longrightarrow> old (mccon_err s') = old (mccon_err s) \<Longrightarrow>
   err_item_events s' = err_item_events s"
  by (intro ext) (simp add: err_item_events_def err_visible_frame [of s' s]
      err_process_text_frame [of s' s])

lemma err_closer_events_frame:
  "user_mode s' = user_mode s \<Longrightarrow> user (mccon_err s') = user (mccon_err s) \<Longrightarrow>
   file_only (mccon_err s') = file_only (mccon_err s) \<Longrightarrow> old (mccon_err s') = old (mccon_err s) \<Longrightarrow>
   err_closer_events s' = err_closer_events s"
  by (intro ext) (simp add: err_closer_events_def err_visible_frame [of s' s])

lemma err_on_timeout_ok:
  assumes "log (mccon_err s) = Some h"
  shows "err_on_timeout s = Inr (set_allowed True (s\<lparr>trace := trace s @ err_closer_events s h\<rparr>))"
  using assms
  by (simp add: err_on_timeout_def err_closer_events_def MCConErr_flush_def Let_def emit_def
      set_allowed_def err_visible_def)

lemma err_emit_item_ok:
  assumes "log (mccon_err s) = Some h"
  shows "err_emit_item x s = Inr (s\<lparr>trace := trace s @ err_item_events s h x\<rparr>)"
  using assms
  by (simp add: err_emit_item_def err_item_events_def MCConErr_flush_def Let_def emit_def
      err_visible_def MCConErr_process_text_def)

lemma err_loop_ok:
  "log (mccon_err s) = Some h \<Longrightarrow> queue (mccon_err s) = q \<Longrightarrow>
   err_loop q s = Inr (flushed (err_block_events s h q) s)"
proof (induction q arbitrary: s)
  case Nil
  have q: "(mccon_err s)\<lparr>queue := []\<rparr> = mccon_err s"
    using Nil.prems(2) [symmetric] by simp
  have cl: "err_closer_events (set_allowed False s) h = err_closer_events s h"
    by (simp add: err_closer_events_frame [of "set_allowed False s" s])
  have lg: "log (mccon_err (set_allowed False s)) = Some h" using Nil.prems by simp
  have "err_loop [] s = err_on_timeout (set_allowed False s)" by simp
  also have "\<dots> = Inr (set_allowed True ((set_allowed False s)
      \<lparr>trace := trace (set_allowed False s) @ err_closer_events (set_allowed False s) h\<rparr>))"
    by (rule err_on_timeout_ok [OF lg])
  also have "set_allowed True ((set_allowed False s)
      \<lparr>trace := trace (set_allowed False s) @ err_closer_events (set_allowed False s) h\<rparr>)
      = flushed (err_block_events s h []) s"
    unfolding cl by (simp add: err_block_events_def flushed_def set_allowed_def q)
  finally show ?case .
next
  case (Cons x rest)
  let ?s2 = "(set_allowed False s)\<lparr>mccon_err := (mccon_err (set_allowed False s))\<lparr>queue := rest\<rparr>\<rparr>"
  define s3 where "s3 = ?s2\<lparr>trace := trace ?s2 @ err_item_events ?s2 h x\<rparr>"
  have lg: "log (mccon_err ?s2) = Some h" using Cons.prems by simp
  have e2: "err_item_events ?s2 = err_item_events s"
    by (rule err_item_events_frame; simp)
  have e3: "err_item_events s3 = err_item_events s"
    by (rule err_item_events_frame; simp add: s3_def)
  have c3: "err_closer_events s3 = err_closer_events s"
    by (rule err_closer_events_frame; simp add: s3_def)
  have emit: "err_emit_item x ?s2 = Inr s3"
    unfolding s3_def by (rule err_emit_item_ok [OF lg])
  have IH: "err_loop rest s3 = Inr (flushed (err_block_events s3 h rest) s3)"
    by (rule Cons.IH) (use Cons.prems in \<open>simp_all add: s3_def\<close>)
  have blk: "err_block_events s3 h rest = concat (map (err_item_events s h) rest) @ err_closer_events s h"
    by (simp add: err_block_events_def e3 c3)
  have fl: "flushed E s3 = flushed (err_item_events s h x @ E) s" for E
    unfolding s3_def e2 by (simp add: flushed_def set_allowed_def)
  have "err_loop (x # rest) s = err_loop rest s3"
    unfolding err_loop.simps Let_def emit by simp
  also have "\<dots> = Inr (flushed (err_block_events s3 h rest) s3)" by (rule IH)
  also have "flushed (err_block_events s3 h rest) s3 = flushed (err_block_events s h (x # rest)) s"
    unfolding blk fl by (simp add: err_block_events_def)
  finally show ?case .
qed

subsection \<open>Projections of a trace\<close>

lemma log_writes_simps [simp]:
  "log_writes k [] = []"
  "log_writes k (e # es) = log_text k e @ log_writes k es"
  "log_writes k (xs @ ys) = log_writes k xs @ log_writes k ys"
  by (simp_all add: log_writes_def)

lemma dev_writes_simps [simp]:
  "dev_writes d [] = []"
  "dev_writes d (e # es) = dev_text d e @ dev_writes d es"
  "dev_writes d (xs @ ys) = dev_writes d xs @ dev_writes d ys"
  by (simp_all add: dev_writes_def)

subsection \<open>Steps of the Error Sink alone\<close>

lemma err_onlyI:
  "s' = s\<lparr>trace := trace s @ es,
               mccon_out := (mccon_out s)\<lparr>allowed := a\<rparr>,
               mccon_err := (mccon_err s)\<lparr>queue := q, t := tt\<rparr>,
               timers := tm\<rparr> \<Longrightarrow> list_all (is_err_event (old (mccon_err s))) es \<Longrightarrow> err_only s s'"
  unfolding err_only_def by blast

lemma err_only_refl: "err_only s s"
  by (rule err_onlyI [where es = "[]" and a = "allowed (mccon_out s)" and q = "queue (mccon_err s)"
        and tt = "t (mccon_err s)" and tm = "timers s"]) simp_all

lemma err_only_trans:
  assumes "err_only s s'" "err_only s' s''"
  shows "err_only s s''"
proof -
  from assms(1) obtain es a q tt tm where
    1: "s' = s\<lparr>trace := trace s @ es,
               mccon_out := (mccon_out s)\<lparr>allowed := a\<rparr>,
               mccon_err := (mccon_err s)\<lparr>queue := q, t := tt\<rparr>,
               timers := tm\<rparr>" and 2: "list_all (is_err_event (old (mccon_err s))) es"
    unfolding err_only_def by blast
  from assms(2) obtain es' a' q' tt' tm' where
    3: "s'' = s'\<lparr>trace := trace s' @ es',
               mccon_out := (mccon_out s')\<lparr>allowed := a'\<rparr>,
               mccon_err := (mccon_err s')\<lparr>queue := q', t := tt'\<rparr>,
               timers := tm'\<rparr>" and 4: "list_all (is_err_event (old (mccon_err s'))) es'"
    unfolding err_only_def by blast
  show ?thesis
    by (rule err_onlyI [where es = "es @ es'" and a = a' and q = q' and tt = tt' and tm = tm'])
       (use 1 2 3 4 in simp_all)
qed

lemma err_only_emit:
  "is_err_event (old (mccon_err s)) e \<Longrightarrow> err_only s (emit e s)"
  by (rule err_onlyI [where es = "[e]" and a = "allowed (mccon_out s)" and q = "queue (mccon_err s)"
        and tt = "t (mccon_err s)" and tm = "timers s"]) (simp_all add: emit_def)

lemma err_only_set_allowed: "err_only s (set_allowed b s)"
  by (rule err_onlyI [where es = "[]" and a = b and q = "queue (mccon_err s)"
        and tt = "t (mccon_err s)" and tm = "timers s"]) (simp_all add: set_allowed_def)

lemma err_only_queue: "err_only s (s\<lparr>mccon_err := (mccon_err s)\<lparr>queue := q\<rparr>\<rparr>)"
  by (rule err_onlyI [where es = "[]" and a = "allowed (mccon_out s)" and q = q
        and tt = "t (mccon_err s)" and tm = "timers s"]) simp_all

lemma err_only_t: "err_only s (s\<lparr>mccon_err := (mccon_err s)\<lparr>t := tt\<rparr>\<rparr>)"
  by (rule err_onlyI [where es = "[]" and a = "allowed (mccon_out s)" and q = "queue (mccon_err s)"
        and tt = tt and tm = "timers s"]) simp_all

lemma err_only_timers: "err_only s (s\<lparr>timers := tm\<rparr>)"
  by (rule err_onlyI [where es = "[]" and a = "allowed (mccon_out s)" and q = "queue (mccon_err s)"
        and tt = "t (mccon_err s)" and tm = tm]) simp_all

lemma err_only_fields:
  assumes "err_only s s'"
  shows "user_mode s' = user_mode s" "use_colour s' = use_colour s" "colours s' = colours s"
    "prefix s' = prefix s" "log_file s' = log_file s"
    "old (mccon_err s') = old (mccon_err s)" "log (mccon_err s') = log (mccon_err s)"
    "user (mccon_err s') = user (mccon_err s)" "file_only (mccon_err s') = file_only (mccon_err s)"
    "print_header (mccon_err s') = print_header (mccon_err s)" "msg (mccon_err s') = msg (mccon_err s)"
    "error (mccon_err s') = error (mccon_err s)"
    "(mccon_out s')\<lparr>allowed := b\<rparr> = (mccon_out s)\<lparr>allowed := b\<rparr>"
  using assms unfolding err_only_def by auto

lemma err_only_out_fields:
  assumes "err_only s s'"
  shows "queue (mccon_out s') = queue (mccon_out s)" "log (mccon_out s') = log (mccon_out s)"
    "old (mccon_out s') = old (mccon_out s)" "last_char (mccon_out s') = last_char (mccon_out s)"
    "user (mccon_out s') = user (mccon_out s)" "file_only (mccon_out s') = file_only (mccon_out s)"
  using assms unfolding err_only_def by auto

lemma err_events_no_out_log:
  "list_all (is_err_event d) es \<Longrightarrow> log_writes OutSink es = []"
proof (induction es)
  case Nil then show ?case by simp
next
  case (Cons e es) then show ?case by (cases e) auto
qed

lemma err_events_other_dev:
  "list_all (is_err_event d) es \<Longrightarrow> d' \<noteq> d \<Longrightarrow> filter (on_dev d') es = []"
proof (induction es)
  case Nil then show ?case by simp
next
  case (Cons e es) then show ?case by (cases e) auto
qed

lemma err_only_trace:
  assumes "err_only s s'"
  shows "log_writes OutSink (trace s') = log_writes OutSink (trace s)"
    and "d \<noteq> old (mccon_err s) \<Longrightarrow> filter (on_dev d) (trace s') = filter (on_dev d) (trace s)"
  using assms unfolding err_only_def
  by (auto simp: err_events_no_out_log err_events_other_dev)

lemma res_state_simps [simp]: "res_state (Inl (x, s)) = s" "res_state (Inr s) = s"
  by (simp_all add: res_state_def)

lemma err_only_flush: "err_only s (res_state (MCConErr_flush s))"
  by (cases "log (mccon_err s)") (simp_all add: MCConErr_flush_def err_only_refl err_only_emit)

lemma err_only_log_write:
  "err_only s (case log (mccon_err s) of None \<Rightarrow> s | Some h \<Rightarrow> emit (LogWrite ErrSink h x) s)"
  by (cases "log (mccon_err s)") (simp_all add: err_only_refl err_only_emit)

lemma err_only_emit_item: "err_only s (res_state (err_emit_item x s))"
proof -
  let ?s1 = "case log (mccon_err s) of None \<Rightarrow> s | Some h \<Rightarrow> emit (LogWrite ErrSink h x) s"
  let ?s2 = "if err_visible ?s1
             then emit (DevWrite (old (mccon_err ?s1)) (MCConErr_process_text ?s1 x)) ?s1 else ?s1"
  have 1: "err_only s ?s1" by (rule err_only_log_write)
  have 2: "err_only ?s1 ?s2" by (simp add: err_only_refl err_only_emit)
  have 3: "err_only ?s2 (res_state (err_emit_item x s))"
    by (simp add: err_emit_item_def Let_def err_only_refl err_only_flush)
  show ?thesis using 1 2 3 by (blast intro: err_only_trans)
qed

lemma err_only_on_timeout: "err_only s (res_state (err_on_timeout s))"
proof (cases "err_visible s")
  case False
  then show ?thesis by (simp add: err_on_timeout_def err_only_set_allowed)
next
  case True
  let ?s1 = "case log (mccon_err s) of None \<Rightarrow> s | Some h \<Rightarrow> emit (LogWrite ErrSink h [NL]) s"
  let ?s2 = "emit (DevWrite (old (mccon_err ?s1)) [NL]) ?s1"
  have 1: "err_only s ?s1" by (rule err_only_log_write)
  have 2: "err_only ?s1 ?s2" by (simp add: err_only_emit)
  have 3: "err_only ?s2 (res_state (MCConErr_flush ?s2))" by (rule err_only_flush)
  have 4: "err_only (res_state (MCConErr_flush ?s2)) (res_state (err_on_timeout s))"
    using True
    by (auto simp: err_on_timeout_def Let_def err_only_refl err_only_set_allowed split: sum.splits)
  show ?thesis using 1 2 3 4 by (blast intro: err_only_trans)
qed

lemma err_only_loop: "err_only s (res_state (err_loop q s))"
proof (induction q arbitrary: s)
  case Nil
  have "err_only (set_allowed False s) (res_state (err_on_timeout (set_allowed False s)))"
    by (rule err_only_on_timeout)
  then show ?case using err_only_set_allowed [of s False] by (auto intro: err_only_trans)
next
  case (Cons x rest)
  let ?s1 = "set_allowed False s"
  let ?s2 = "?s1\<lparr>mccon_err := (mccon_err ?s1)\<lparr>queue := rest\<rparr>\<rparr>"
  have 1: "err_only s ?s2"
    using err_only_set_allowed [of s False] err_only_queue [of ?s1 rest] by (rule err_only_trans)
  have 2: "err_only ?s2 (res_state (err_emit_item x ?s2))" by (rule err_only_emit_item)
  show ?case
  proof (cases "err_emit_item x ?s2")
    case (Inl a)
    then have "res_state (err_loop (x # rest) s) = res_state (err_emit_item x ?s2)"
      by (simp add: Let_def)
    then show ?thesis using 1 2 by (auto intro: err_only_trans)
  next
    case (Inr s3)
    then have "res_state (err_loop (x # rest) s) = res_state (err_loop rest s3)"
      by (simp add: Let_def)
    moreover have "err_only s3 (res_state (err_loop rest s3))" by (rule Cons.IH)
    moreover have "err_only ?s2 s3" using 2 Inr by simp
    ultimately show ?thesis using 1 by (auto intro: err_only_trans)
  qed
qed

lemma err_only_start_timer: "err_only s (start_timer b s)"
  by (rule err_onlyI [where es = "[]" and a = "allowed (mccon_out s)" and q = "queue (mccon_err s)"
        and tt = "Some b" and tm = "timers s @ [b]"]) (simp_all add: start_timer_def)

lemma err_only_write_buffer: "err_only s (write_buffer pa s)"
proof -
  let ?s1 = "s\<lparr>mccon_err := (mccon_err s)\<lparr>t := None\<rparr>\<rparr>"
  have 1: "err_only s ?s1" by (rule err_only_t)
  have 2: "err_only ?s1 (start_timer True ?s1)" by (rule err_only_start_timer)
  have 3: "err_only ?s1 (res_state (err_loop (queue (mccon_err ?s1)) ?s1))" by (rule err_only_loop)
  have 4: "err_only ?s1 (write_buffer pa s)"
  proof (cases "err_loop (queue (mccon_err ?s1)) ?s1")
    case (Inl a)
    obtain x s2 where a: "a = (x, s2)" by (cases a)
    have "err_only ?s1 s2" using 3 Inl a by simp
    moreover have "err_only s2 (set_allowed True (emit (TraceDump (old (mccon_err s2)) x) s2))"
      using err_only_emit [of s2 "TraceDump (old (mccon_err s2)) x"]
        err_only_set_allowed [of "emit (TraceDump (old (mccon_err s2)) x) s2" True]
      by (auto intro: err_only_trans)
    ultimately show ?thesis
      using Inl a 2 unfolding write_buffer_def Let_def
      by (auto intro: err_only_trans err_only_refl)
  next
    case (Inr s2)
    have "err_only ?s1 s2" using 3 Inr by simp
    moreover have "err_only s2 (set_allowed True s2)" by (rule err_only_set_allowed)
    ultimately show ?thesis
      using Inr 2 unfolding write_buffer_def Let_def
      by (auto intro: err_only_trans err_only_refl)
  qed
  show ?thesis using 1 4 by (rule err_only_trans)
qed

subsection \<open>The three outcomes of write_buffer\<close>

lemma write_buffer_allowed:
  "allowed (mccon_out s) \<Longrightarrow> allowed (mccon_out (write_buffer pa s))"
  by (auto simp: write_buffer_def Let_def start_timer_def split: sum.splits)

lemma write_buffer_allowed_flush:
  "queue (mccon_err s) \<noteq> [] \<Longrightarrow> pa \<or> last_char (mccon_out s) = Some NL \<Longrightarrow>
   allowed (mccon_out (write_buffer pa s))"
  by (auto simp: write_buffer_def Let_def split: sum.splits)

lemma write_buffer_idle:
  "queue (mccon_err s) = [] \<Longrightarrow> write_buffer pa s = s\<lparr>mccon_err := (mccon_err s)\<lparr>t := None\<rparr>\<rparr>"
  by (simp add: write_buffer_def)

lemma write_buffer_defer:
  "queue (mccon_err s) \<noteq> [] \<Longrightarrow> last_char (mccon_out s) \<noteq> Some NL \<Longrightarrow>
   write_buffer False s = s\<lparr>mccon_err := (mccon_err s)\<lparr>t := Some True\<rparr>, timers := timers s @ [True]\<rparr>"
  by (simp add: write_buffer_def start_timer_def)

lemma write_buffer_flush:
  assumes "log (mccon_err s) = Some h" and "queue (mccon_err s) \<noteq> []"
    and "pa \<or> last_char (mccon_out s) = Some NL"
  shows "write_buffer pa s =
     s\<lparr>trace := trace s @ err_block_events s h (queue (mccon_err s)),
       mccon_out := (mccon_out s)\<lparr>allowed := True\<rparr>,
       mccon_err := (mccon_err s)\<lparr>queue := [], t := None\<rparr>\<rparr>"
proof -
  define s1 where "s1 = s\<lparr>mccon_err := (mccon_err s)\<lparr>t := None\<rparr>\<rparr>"
  have lg: "log (mccon_err s1) = Some h" and q: "queue (mccon_err s1) = queue (mccon_err s)"
    using assms by (simp_all add: s1_def)
  have "err_item_events s1 = err_item_events s"
    by (rule err_item_events_frame; simp add: s1_def)
  moreover have "err_closer_events s1 = err_closer_events s"
    by (rule err_closer_events_frame; simp add: s1_def)
  ultimately have blk: "err_block_events s1 = err_block_events s"
    by (intro ext) (simp add: err_block_events_def)
  have loop: "err_loop (queue (mccon_err s)) s1
      = Inr (flushed (err_block_events s h (queue (mccon_err s))) s1)"
    using err_loop_ok [OF lg refl] by (simp add: blk q)
  have lc: "last_char (mccon_out s1) = last_char (mccon_out s)" by (simp add: s1_def)
  have "write_buffer pa s = set_allowed True (flushed (err_block_events s h (queue (mccon_err s))) s1)"
    using assms(2,3) unfolding write_buffer_def Let_def s1_def [symmetric] q lc loop by auto
  also have "\<dots> = s\<lparr>trace := trace s @ err_block_events s h (queue (mccon_err s)),
       mccon_out := (mccon_out s)\<lparr>allowed := True\<rparr>,
       mccon_err := (mccon_err s)\<lparr>queue := [], t := None\<rparr>\<rparr>"
    by (simp add: flushed_def set_allowed_def s1_def)
  finally show ?thesis .
qed

subsection \<open>The drain of the Output Sink\<close>

lemma out_emit_record_eq:
  "out_emit_record r s =
     s\<lparr>trace := trace s @ out_rec_events (log (mccon_out s)) (old (mccon_out s)) r,
       mccon_out := (mccon_out s)\<lparr>last_char := last_after (last_char (mccon_out s)) [r]\<rparr>\<rparr>"
proof -
  obtain fo x ft prnt where r: "r = (fo, x, ft, prnt)" by (cases r)
  show ?thesis
    by (cases "log (mccon_out s)")
       (simp_all add: r out_emit_record_def out_rec_events_def last_after_def MCConOut_flush_def
          Let_def emit_def)
qed

lemma out_drain_eq:
  "queue (mccon_out s) = q \<Longrightarrow>
   out_drain q s =
     s\<lparr>trace := trace s @ drained_events s q,
       mccon_out := (mccon_out s)\<lparr>queue := [], last_char := last_after (last_char (mccon_out s)) q\<rparr>\<rparr>"
proof (induction q arbitrary: s)
  case Nil
  have "(mccon_out s)\<lparr>queue := []\<rparr> = mccon_out s" using Nil [symmetric] by simp
  then show ?case by (simp add: drained_events_def last_after_def)
next
  case (Cons r rest)
  define s1 where "s1 = s\<lparr>mccon_out := (mccon_out s)\<lparr>queue := rest\<rparr>\<rparr>"
  define s2 where "s2 = out_emit_record r s1"
  have s2: "s2 = s1\<lparr>trace := trace s1 @ out_rec_events (log (mccon_out s1)) (old (mccon_out s1)) r,
       mccon_out := (mccon_out s1)\<lparr>last_char := last_after (last_char (mccon_out s1)) [r]\<rparr>\<rparr>"
    unfolding s2_def by (rule out_emit_record_eq)
  have q2: "queue (mccon_out s2) = rest" by (simp add: s2 s1_def)
  have "out_drain (r # rest) s = out_drain rest s2" by (simp add: s2_def s1_def)
  also have "\<dots> = s2\<lparr>trace := trace s2 @ drained_events s2 rest,
       mccon_out := (mccon_out s2)\<lparr>queue := [], last_char := last_after (last_char (mccon_out s2)) rest\<rparr>\<rparr>"
    by (rule Cons.IH [OF q2])
  also have "\<dots> = s\<lparr>trace := trace s @ drained_events s (r # rest),
       mccon_out := (mccon_out s)\<lparr>queue := [], last_char := last_after (last_char (mccon_out s)) (r # rest)\<rparr>\<rparr>"
    by (simp add: s2 s1_def drained_events_def last_after_def)
  finally show ?case .
qed

subsection \<open>The formatter of the Output Sink\<close>

lemma split_pass_word:
  "word \<noteq> [] \<Longrightarrow> \<exists>st'. split_pass m word st = Inr st' \<and> (st \<noteq> [] \<longrightarrow> st' \<noteq> [])"
proof (induction st)
  case Nil
  show ?case by simp
next
  case (Cons p st)
  obtain x col where p: "p = (x, col)" by (cases p)
  from Cons obtain st' where "split_pass m word st = Inr st'" by blast
  then show ?case using Cons.prems by (simp add: p py_split_def)
qed

lemma split_pass_empty_word: "st \<noteq> [] \<Longrightarrow> split_pass m [] st = Inl ValueError"
  by (cases st) (auto simp: py_split_def)

lemma split_words_raises:
  "[] \<in> set ws \<Longrightarrow> st \<noteq> [] \<Longrightarrow> split_words m ws st = Inl ValueError"
proof (induction ws arbitrary: st)
  case Nil
  then show ?case by simp
next
  case (Cons w ws)
  show ?case
  proof (cases "w = []")
    case True
    then show ?thesis using Cons.prems(2) by (simp add: split_pass_empty_word)
  next
    case False
    from split_pass_word [OF False, of m st] obtain st'
      where st': "split_pass m w st = Inr st'" "st' \<noteq> []"
      using Cons.prems(2) by blast
    have "[] \<in> set ws" using Cons.prems(1) False by auto
    then show ?thesis using Cons.IH [OF _ st'(2)] st'(1) by simp
  qed
qed

lemma split_words_returns:
  "[] \<notin> set ws \<Longrightarrow> \<exists>st'. split_words m ws st = Inr st'"
proof (induction ws arbitrary: st)
  case Nil
  then show ?case by simp
next
  case (Cons w ws)
  then have w: "w \<noteq> []" by auto
  from split_pass_word [OF w, of m st] obtain st' where "split_pass m w st = Inr st'" by blast
  then show ?case using Cons.IH [of st'] Cons.prems by auto
qed

lemma add_words_keys:
  "set (map fst (add_words n wmap d m))
     = set (map fst m) \<union> {w \<in> set (map fst wmap). length w < n}"
proof -
  have "set (map fst (foldl (\<lambda>m word.
              if length word < n \<and> word \<notin> set (map fst m)
              then (let col = (case map_of wmap word of Some (Some c) \<Rightarrow> c | _ \<Rightarrow> d)
                    in AList.update word col m)
              else m) m ws))
        = set (map fst m) \<union> {w \<in> set ws. length w < n}" for ws
  proof (induction ws arbitrary: m)
    case Nil
    show ?case by simp
  next
    case (Cons w ws)
    show ?case unfolding foldl_Cons Cons.IH by (auto simp: Let_def dom_update)
  qed
  then show ?thesis unfolding add_words_def .
qed

lemma word_col_map_keys:
  "([] \<in> set (map fst (AList.update SEPARATOR dc
      (add_words n (map (\<lambda>(w, c). (w, Some c)) (stat_highlight s)) d4
        (add_words n (highlights s) d3
          (add_words n (low_words (mccon_out s)) d2
            (add_words n (high_words (mccon_out s)) d1 [])))))))
   \<longleftrightarrow> 0 < n \<and> [] \<in> set (highlight_words s)"
proof -
  have "map fst (map (\<lambda>(w, c). (w, Some c)) (stat_highlight s)) = map fst (stat_highlight s)"
    by (induction "stat_highlight s") (auto split: prod.splits)
  then have k: "set (map fst (map (\<lambda>(w, c). (w, Some c)) (stat_highlight s)))
      = set (map fst (stat_highlight s))" by simp
  have "set (map fst (AList.update SEPARATOR dc
      (add_words n (map (\<lambda>(w, c). (w, Some c)) (stat_highlight s)) d4
        (add_words n (highlights s) d3
          (add_words n (low_words (mccon_out s)) d2
            (add_words n (high_words (mccon_out s)) d1 []))))))
     = {SEPARATOR} \<union> {w \<in> set (highlight_words s). length w < n}"
    unfolding set_map dom_update unfolding set_map [symmetric] add_words_keys k
    by (auto simp: highlight_words_def)
  then show ?thesis by (auto simp: SEPARATOR_def)
qed

lemma process_text_raises:
  assumes "format_raises s x"
  shows "MCConOut_process_text s x = Inl ValueError"
proof -
  from assms have c: "use_colour s" and x: "0 < length x" and e: "[] \<in> set (highlight_words s)"
    by (simp_all add: format_raises_def)
  define m where "m = AList.update SEPARATOR (DISABLED_COLOUR (colours s))
     (add_words (length x) (map (\<lambda>(w, c). (w, Some c)) (stat_highlight s))
                   (HIGHLIGHT_COLOUR (colours s))
                 (add_words (length x) (highlights s) (HIGHLIGHT_COLOUR (colours s))
                   (add_words (length x) (low_words (mccon_out s)) (LOWLIGHT_COLOUR (colours s))
                     (add_words (length x) (high_words (mccon_out s))
                        (HIGHLIGHT_COLOUR (colours s)) []))))"
  have "[] \<in> set (map fst m)" unfolding m_def word_col_map_keys using x e by simp
  then have keys: "[] \<in> set (rev (sort_key length (map fst m)))" by simp
  have "split_words m (rev (sort_key length (map fst m))) [(x, mc)] = Inl ValueError" for mc
    by (rule split_words_raises [OF keys]) simp
  then show ?thesis
    unfolding MCConOut_process_text_def Let_def m_def [symmetric] using c by simp
qed

lemma process_text_returns:
  assumes "\<not> format_raises s x"
  shows "\<exists>ft. MCConOut_process_text s x = Inr ft"
proof (cases "use_colour s")
  case False
  then show ?thesis by (simp add: MCConOut_process_text_def)
next
  case True
  define m where "m = AList.update SEPARATOR (DISABLED_COLOUR (colours s))
     (add_words (length x) (map (\<lambda>(w, c). (w, Some c)) (stat_highlight s))
                   (HIGHLIGHT_COLOUR (colours s))
                 (add_words (length x) (highlights s) (HIGHLIGHT_COLOUR (colours s))
                   (add_words (length x) (low_words (mccon_out s)) (LOWLIGHT_COLOUR (colours s))
                     (add_words (length x) (high_words (mccon_out s))
                        (HIGHLIGHT_COLOUR (colours s)) []))))"
  have "[] \<notin> set (map fst m)"
    unfolding m_def word_col_map_keys using assms True by (auto simp: format_raises_def)
  then have keys: "[] \<notin> set (rev (sort_key length (map fst m)))" by simp
  have "\<exists>st'. split_words m (rev (sort_key length (map fst m))) [(x, mc)] = Inr st'" for mc
    by (rule split_words_returns [OF keys])
  then obtain st' where "split_words m (rev (sort_key length (map fst m)))
      [(x, if error (mccon_out s) then ERROR_COLOUR (colours s)
           else if warn (mccon_out s) then WARN_COLOUR (colours s)
           else if user (mccon_out s) then USER_COLOUR (colours s)
           else DULL_COLOUR (colours s))] = Inr st'" by blast
  then show ?thesis
    unfolding MCConOut_process_text_def Let_def m_def [symmetric] using True by auto
qed

text \<open>The formatter raises in exactly the states and for exactly the texts of
  \<open>format_raises\<close>, and then it raises \<^verbatim>\<open>ValueError\<close>.\<close>

lemma process_text_cases:
  "MCConOut_process_text s x = Inl e \<longleftrightarrow> e = ValueError \<and> format_raises s x"
proof (cases "format_raises s x")
  case True
  then show ?thesis by (auto simp: process_text_raises)
next
  case False
  from process_text_returns [OF False] show ?thesis using False by auto
qed

subsection \<open>The cases of MCConOut.write\<close>

lemma out_after_put_deferred: "\<not> allowed (mccon_out s) \<Longrightarrow> out_after_put s = s"
  by (simp add: out_after_put_def)

lemma out_after_put_allowed:
  assumes "allowed (mccon_out s)"
  shows "out_after_put s =
     (let s2 = drained s
      in if last_char (mccon_out s2) = Some NL then write_buffer True s2 else s2)"
proof -
  have d: "out_drain (queue (mccon_out s)) s = drained s"
    unfolding drained_def by (rule out_drain_eq [OF refl])
  show ?thesis unfolding out_after_put_def Let_def d using assms by simp
qed

lemma out_after_put_err_only:
  assumes "allowed (mccon_out s)"
  shows "err_only (drained s) (out_after_put s)"
  unfolding out_after_put_allowed [OF assms] Let_def
  by (simp add: err_only_refl err_only_write_buffer)

lemma out_write_None: "MCConOut_write None s = Inr (out_after_put s)"
  by (simp add: MCConOut_write_def)

lemma out_write_formatted:
  "MCConOut_process_text s x = Inr ft \<Longrightarrow>
   MCConOut_write (Some x) s
     = Inr (out_after_put
              (out_put (file_only (mccon_out s), x, ft,
                        (user (mccon_out s) \<and> user_mode s) \<or> \<not> user_mode s) s))"
  by (simp add: MCConOut_write_def)

lemma out_write_raises:
  "format_raises s x \<Longrightarrow> MCConOut_write (Some x) s = Inl (ValueError, s)"
  by (simp add: MCConOut_write_def process_text_raises)

text \<open>\<^verbatim>\<open>MCConOut.write\<close> raises only through its formatter, and then nothing has
  changed.\<close>

lemma out_write_raises_iff:
  "MCConOut_write tx s = Inl (e, s')
     \<longleftrightarrow> (\<exists>x. tx = Some x \<and> format_raises s x) \<and> e = ValueError \<and> s' = s"
proof (cases tx)
  case None
  then show ?thesis by (simp add: out_write_None)
next
  case (Some x)
  show ?thesis
  proof (cases "format_raises s x")
    case True
    then show ?thesis using Some by (auto simp: out_write_raises)
  next
    case False
    from process_text_returns [OF False] obtain ft where "MCConOut_process_text s x = Inr ft" ..
    then show ?thesis using Some False by (simp add: out_write_formatted)
  qed
qed

subsection \<open>init without a log path\<close>

lemma init_None: "\<exists>b'. init colour None dp ls ph b = Inl (UnboundLocalError, Inl b')"
  by (simp add: init_def Let_def)

lemma scenario_A_write:
  "map_sum fst trace
     (MCConOut_write (Some (''hello'' @ [NL]))
        (boot.extend (boot0\<lparr>print_log_name := False\<rparr>)
           \<lparr> mccon_out = new_MCConOut StdOut None,
             mccon_err = new_MCConErr StdErr None True,
             installed = True, timers = [] \<rparr>))
   = Inr [DevWrite StdOut (''hello'' @ [NL])]"
  by (simp add: MCConOut_write_def out_after_put_def out_put_def MCConOut_process_text_def
      boot0_def boot.defs new_MCConOut_def new_MCConErr_def out_emit_record_def Let_def emit_def
      MCConOut_flush_def write_buffer_def)

subsection \<open>What a drained queue shows\<close>

lemma err_events_no_dev_text:
  "list_all (is_err_event d) es \<Longrightarrow> d' \<noteq> d \<Longrightarrow> dev_writes d' es = []"
proof (induction es)
  case Nil then show ?case by simp
next
  case (Cons e es) then show ?case by (cases e) auto
qed

lemma err_only_dev_writes:
  assumes "err_only s s'" "d \<noteq> old (mccon_err s)"
  shows "dev_writes d (trace s') = dev_writes d (trace s)"
  using assms unfolding err_only_def by (auto simp: err_events_no_dev_text)

lemma drained_events_log:
  "log_writes OutSink (drained_events s q)
     = (case log (mccon_out s) of None \<Rightarrow> [] | Some h \<Rightarrow> raw_texts q)"
  by (induction q)
     (auto simp: drained_events_def raw_texts_def out_rec_events_def split: option.splits)

lemma drained_events_err_log: "log_writes ErrSink (drained_events s q) = []"
  by (induction q)
     (auto simp: drained_events_def out_rec_events_def split: option.splits)

lemma drained_events_dev:
  "dev_writes (old (mccon_out s)) (drained_events s q) = shown_texts q"
  by (induction q)
     (auto simp: drained_events_def shown_texts_def out_rec_events_def split: option.splits)

lemma out_rec_events_simps:
  "out_rec_events None d (fo, x, ft, prnt) = (if \<not> fo \<and> prnt then [DevWrite d ft] else [])"
  "out_rec_events (Some h) d (fo, x, ft, prnt) =
     LogWrite OutSink h x # (if \<not> fo \<and> prnt then [DevWrite d ft] else [])
       @ (if NL \<in> set x then [LogFlush h] else [])"
  by (simp_all add: out_rec_events_def)

lemma shown_texts_single: "shown_texts [(fo, x, ft, prnt)] = (if \<not> fo \<and> prnt then [ft] else [])"
  by (simp add: shown_texts_def)

lemma out_rec_events_on_dev:
  "filter (on_dev d) (out_rec_events lg d r) = map (DevWrite d) (shown_texts [r])"
proof -
  obtain fo x ft prnt where r: "r = (fo, x, ft, prnt)" by (cases r)
  show ?thesis unfolding r
    by (cases lg) (simp_all add: out_rec_events_simps shown_texts_single)
qed

lemma shown_texts_Cons: "shown_texts (r # q) = shown_texts [r] @ shown_texts q"
  by (simp add: shown_texts_def)

lemma drained_events_on_dev:
  "filter (on_dev (old (mccon_out s))) (drained_events s q)
     = map (DevWrite (old (mccon_out s))) (shown_texts q)"
proof (induction q)
  case Nil
  show ?case by (simp add: drained_events_def shown_texts_def)
next
  case (Cons r q)
  have "drained_events s (r # q)
      = out_rec_events (log (mccon_out s)) (old (mccon_out s)) r @ drained_events s q"
    by (simp add: drained_events_def)
  then show ?case
    using Cons.IH by (simp add: out_rec_events_on_dev shown_texts_Cons [of r q])
qed

lemma drained_fields [simp]:
  "trace (drained s) = trace s @ drained_events s (queue (mccon_out s))"
  "queue (mccon_out (drained s)) = []"
  "allowed (mccon_out (drained s)) = allowed (mccon_out s)"
  "log (mccon_out (drained s)) = log (mccon_out s)"
  "old (mccon_out (drained s)) = old (mccon_out s)"
  "mccon_err (drained s) = mccon_err s"
  "user_mode (drained s) = user_mode s"
  "timers (drained s) = timers s"
  by (simp_all add: drained_def)

lemma out_put_fields [simp]:
  "trace (out_put r s) = trace s"
  "queue (mccon_out (out_put r s)) = queue (mccon_out s) @ [r]"
  "allowed (mccon_out (out_put r s)) = allowed (mccon_out s)"
  "log (mccon_out (out_put r s)) = log (mccon_out s)"
  "old (mccon_out (out_put r s)) = old (mccon_out s)"
  "mccon_err (out_put r s) = mccon_err s"
  "user_mode (out_put r s) = user_mode s"
  "timers (out_put r s) = timers s"
  by (simp_all add: out_put_def)

text \<open>What the drain of an allowed write leaves behind, in projections.\<close>

lemma out_after_put_effects:
  fixes s :: sys
  assumes a: "allowed (mccon_out s)"
  defines "s' \<equiv> out_after_put s"
  shows "queue (mccon_out s') = []"
    and "allowed (mccon_out s')"
    and "log (mccon_out s') = log (mccon_out s)"
    and "log (mccon_err s') = log (mccon_err s)"
    and "user_mode s' = user_mode s"
    and "log_writes OutSink (trace s')
           = log_writes OutSink (trace s)
             @ (case log (mccon_out s) of None \<Rightarrow> [] | Some h \<Rightarrow> raw_texts (queue (mccon_out s)))"
    and "old (mccon_err s) \<noteq> old (mccon_out s) \<Longrightarrow>
         dev_writes (old (mccon_out s)) (trace s')
           = dev_writes (old (mccon_out s)) (trace s) @ shown_texts (queue (mccon_out s))"
    and "old (mccon_err s) \<noteq> old (mccon_out s) \<Longrightarrow>
         filter (on_dev (old (mccon_out s))) (trace s')
           = filter (on_dev (old (mccon_out s))) (trace s)
             @ map (DevWrite (old (mccon_out s))) (shown_texts (queue (mccon_out s)))"
proof -
  have eo: "err_only (drained s) s'"
    unfolding s'_def by (rule out_after_put_err_only [OF a])
  show "queue (mccon_out s') = []" using err_only_out_fields(1) [OF eo] by simp
  show "allowed (mccon_out s')"
    unfolding s'_def out_after_put_allowed [OF a] Let_def
    by (simp add: write_buffer_allowed a)
  show "log (mccon_out s') = log (mccon_out s)" using err_only_out_fields(2) [OF eo] by simp
  show "log (mccon_err s') = log (mccon_err s)" using err_only_fields(7) [OF eo] by simp
  show "user_mode s' = user_mode s" using err_only_fields(1) [OF eo] by simp
  show "log_writes OutSink (trace s')
           = log_writes OutSink (trace s)
             @ (case log (mccon_out s) of None \<Rightarrow> [] | Some h \<Rightarrow> raw_texts (queue (mccon_out s)))"
    using err_only_trace(1) [OF eo] by (simp add: drained_events_log)
  show "dev_writes (old (mccon_out s)) (trace s')
           = dev_writes (old (mccon_out s)) (trace s) @ shown_texts (queue (mccon_out s))"
    if "old (mccon_err s) \<noteq> old (mccon_out s)"
    using err_only_dev_writes [OF eo, of "old (mccon_out s)"] that
    by (simp add: drained_events_dev)
  show "filter (on_dev (old (mccon_out s))) (trace s')
           = filter (on_dev (old (mccon_out s))) (trace s)
             @ map (DevWrite (old (mccon_out s))) (shown_texts (queue (mccon_out s)))"
    if "old (mccon_err s) \<noteq> old (mccon_out s)"
    using err_only_trace(2) [OF eo, of "old (mccon_out s)"] that
    by (simp add: drained_events_on_dev)
qed

text \<open>A write whose text the formatter accepts, in a state between two locked calls: the
  raw text goes to the log if there is one, once, and the formatted text to the device if
  the record is shown.\<close>

lemma out_write_formatted_effects:
  assumes a: "allowed (mccon_out s)" and q: "queue (mccon_out s) = []"
    and f: "MCConOut_process_text s x = Inr ft"
  shows "\<exists>s'. MCConOut_write (Some x) s = Inr s'
           \<and> queue (mccon_out s') = [] \<and> allowed (mccon_out s') \<and> user_mode s' = user_mode s
           \<and> log_writes OutSink (trace s')
               = log_writes OutSink (trace s)
                 @ (case log (mccon_out s) of None \<Rightarrow> [] | Some h \<Rightarrow> [x])
           \<and> (old (mccon_err s) \<noteq> old (mccon_out s) \<longrightarrow>
                filter (on_dev (old (mccon_out s))) (trace s')
                  = filter (on_dev (old (mccon_out s))) (trace s)
                    @ (if \<not> file_only (mccon_out s)
                          \<and> ((user (mccon_out s) \<and> user_mode s) \<or> \<not> user_mode s)
                       then [DevWrite (old (mccon_out s)) ft] else []))"
proof -
  define r where "r = (file_only (mccon_out s), x, ft,
                        (user (mccon_out s) \<and> user_mode s) \<or> \<not> user_mode s)"
  define s1 where "s1 = out_put r s"
  have a1: "allowed (mccon_out s1)" using a by (simp add: s1_def)
  have q1: "queue (mccon_out s1) = [r]" using q by (simp add: s1_def)
  have w: "MCConOut_write (Some x) s = Inr (out_after_put s1)"
    unfolding s1_def r_def by (rule out_write_formatted [OF f])
  note e = out_after_put_effects [OF a1]
  have "log_writes OutSink (trace (out_after_put s1))
      = log_writes OutSink (trace s) @ (case log (mccon_out s) of None \<Rightarrow> [] | Some h \<Rightarrow> [x])"
    using e(6) by (simp add: q raw_texts_def r_def s1_def split: option.splits)
  moreover have "filter (on_dev (old (mccon_out s))) (trace (out_after_put s1))
      = filter (on_dev (old (mccon_out s))) (trace s)
        @ (if \<not> file_only (mccon_out s) \<and> ((user (mccon_out s) \<and> user_mode s) \<or> \<not> user_mode s)
           then [DevWrite (old (mccon_out s)) ft] else [])"
    if "old (mccon_err s) \<noteq> old (mccon_out s)"
    using e(8) that by (simp add: q shown_texts_single r_def s1_def)
  moreover have "user_mode (out_after_put s1) = user_mode s" using e(5) by (simp add: s1_def)
  ultimately show ?thesis using w e(1,2) by simp
qed

subsection \<open>Timers during a flush\<close>

lemma emit_item_timers:
  "t (mccon_err (res_state (err_emit_item x s))) = t (mccon_err s)
   \<and> timers (res_state (err_emit_item x s)) = timers s"
  by (auto simp: err_emit_item_def MCConErr_flush_def Let_def split: option.splits)

lemma on_timeout_timers:
  "t (mccon_err (res_state (err_on_timeout s))) = t (mccon_err s)
   \<and> timers (res_state (err_on_timeout s)) = timers s"
  by (auto simp: err_on_timeout_def MCConErr_flush_def Let_def split: option.splits)

lemma err_loop_timers:
  "t (mccon_err (res_state (err_loop q s))) = t (mccon_err s)
   \<and> timers (res_state (err_loop q s)) = timers s"
proof (induction q arbitrary: s)
  case Nil
  show ?case using on_timeout_timers [of "set_allowed False s"] by simp
next
  case (Cons x rest)
  let ?s2 = "(set_allowed False s)\<lparr>mccon_err := (mccon_err (set_allowed False s))\<lparr>queue := rest\<rparr>\<rparr>"
  show ?case
  proof (cases "err_emit_item x ?s2")
    case (Inl a)
    then have "res_state (err_loop (x # rest) s) = res_state (err_emit_item x ?s2)"
      by (simp add: Let_def)
    then show ?thesis using emit_item_timers [of x ?s2] by simp
  next
    case (Inr s3)
    then have "res_state (err_loop (x # rest) s) = res_state (err_loop rest s3)"
      by (simp add: Let_def)
    then show ?thesis using Cons.IH [of s3] emit_item_timers [of x ?s2] Inr by simp
  qed
qed

lemma write_buffer_flush_timers:
  assumes "queue (mccon_err s) \<noteq> []" and "pa \<or> last_char (mccon_out s) = Some NL"
  shows "t (mccon_err (write_buffer pa s)) = None" and "timers (write_buffer pa s) = timers s"
proof -
  let ?s1 = "s\<lparr>mccon_err := (mccon_err s)\<lparr>t := None\<rparr>\<rparr>"
  have lt: "t (mccon_err (res_state (err_loop (queue (mccon_err ?s1)) ?s1))) = None"
    "timers (res_state (err_loop (queue (mccon_err ?s1)) ?s1)) = timers s"
    using err_loop_timers [of "queue (mccon_err ?s1)" ?s1] by simp_all
  have wb: "write_buffer pa s =
      (case err_loop (queue (mccon_err ?s1)) ?s1 of
         Inl (x, s2) \<Rightarrow> set_allowed True (emit (TraceDump (old (mccon_err s2)) x) s2)
       | Inr s2 \<Rightarrow> set_allowed True s2)"
    using assms unfolding write_buffer_def Let_def by auto
  show "t (mccon_err (write_buffer pa s)) = None"
    unfolding wb using lt by (cases "err_loop (queue (mccon_err ?s1)) ?s1") auto
  show "timers (write_buffer pa s) = timers s"
    unfolding wb using lt by (cases "err_loop (queue (mccon_err ?s1)) ?s1") auto
qed

subsection \<open>Writes to the Error Sink\<close>

lemma err_write_effects:
  "trace (MCConErr_write now x s) = trace s"
  "mccon_out (MCConErr_write now x s) = mccon_out s"
  "queue (mccon_err (MCConErr_write now x s))
     = queue (mccon_err s)
       @ (if queue (mccon_err s) = [] \<and> print_header (mccon_err s) then [stderr_header now s] else [])
       @ [x]"
  "log (mccon_err (MCConErr_write now x s)) = log (mccon_err s)"
  "err_only s (MCConErr_write now x s)"
  "timers (MCConErr_write now x s)
     = (if t (mccon_err s) = None then timers s @ [False] else timers s)"
proof -
  let ?q = "queue (mccon_err s)
       @ (if queue (mccon_err s) = [] \<and> print_header (mccon_err s) then [stderr_header now s] else [])
       @ [x]"
  have eq: "MCConErr_write now x s =
     s\<lparr>mccon_err := (mccon_err s)\<lparr>queue := ?q,
          t := (if t (mccon_err s) = None then Some False else t (mccon_err s))\<rparr>,
       timers := (if t (mccon_err s) = None then timers s @ [False] else timers s)\<rparr>"
    by (simp add: MCConErr_write_def err_put_def start_timer_def Let_def)
  show "trace (MCConErr_write now x s) = trace s" "mccon_out (MCConErr_write now x s) = mccon_out s"
    "queue (mccon_err (MCConErr_write now x s)) = ?q"
    "log (mccon_err (MCConErr_write now x s)) = log (mccon_err s)"
    "timers (MCConErr_write now x s)
     = (if t (mccon_err s) = None then timers s @ [False] else timers s)"
    unfolding eq by simp_all
  show "err_only s (MCConErr_write now x s)"
    unfolding eq
    by (rule err_onlyI [where es = "[]" and a = "allowed (mccon_out s)"]) simp_all
qed

lemma err_item_events_log: "log_writes ErrSink (err_item_events s h x) = [x]"
  by (simp add: err_item_events_def)

lemma err_block_events_log:
  "log_writes ErrSink (err_block_events s h q) = q @ (if err_visible s then [[NL]] else [])"
proof -
  have "log_writes ErrSink (concat (map (err_item_events s h) q)) = q"
    by (induction q) (simp_all add: err_item_events_log)
  then show ?thesis by (simp add: err_block_events_def err_closer_events_def)
qed

lemma err_item_events_dev:
  "dev_writes (old (mccon_err s)) (err_item_events s h x)
     = (if err_visible s then [MCConErr_process_text s x] else [])"
  by (simp add: err_item_events_def)

lemma err_block_events_dev:
  "dev_writes (old (mccon_err s)) (err_block_events s h q)
     = (if err_visible s then map (MCConErr_process_text s) q @ [[NL]] else [])"
proof -
  have "dev_writes (old (mccon_err s)) (concat (map (err_item_events s h) q))
      = (if err_visible s then map (MCConErr_process_text s) q else [])"
    by (induction q) (simp_all add: err_item_events_dev)
  then show ?thesis by (simp add: err_block_events_def err_closer_events_def)
qed

lemma err_block_events_err:
  "list_all (is_err_event (old (mccon_err s))) (err_block_events s h q)"
proof -
  have "list_all (is_err_event (old (mccon_err s))) (concat (map (err_item_events s h) q))"
    by (induction q) (simp_all add: err_item_events_def)
  then show ?thesis by (simp add: err_block_events_def err_closer_events_def)
qed

subsection \<open>Runs\<close>

lemma run_Cons: "run (x # ops) s = run ops (step x s)"
  by (simp add: run_def)

text \<open>Error writes that follow each other on a queue that is not empty only extend the
  queue.\<close>

lemma run_err_writes:
  "queue (mccon_err s) \<noteq> [] \<Longrightarrow>
   queue (mccon_err (run (map (\<lambda>(now, x). ErrWrite now x) ws) s)) = queue (mccon_err s) @ map snd ws
   \<and> trace (run (map (\<lambda>(now, x). ErrWrite now x) ws) s) = trace s
   \<and> err_only s (run (map (\<lambda>(now, x). ErrWrite now x) ws) s)"
proof (induction ws arbitrary: s)
  case Nil
  then show ?case by (simp add: run_def err_only_refl)
next
  case (Cons p ws)
  obtain now x where p: "p = (now, x)" by (cases p)
  let ?s1 = "MCConErr_write now x s"
  have q1: "queue (mccon_err ?s1) = queue (mccon_err s) @ [x]"
    using Cons.prems by (simp add: err_write_effects)
  then have ne: "queue (mccon_err ?s1) \<noteq> []" by simp
  have e: "run (map (\<lambda>(now, x). ErrWrite now x) (p # ws)) s
      = run (map (\<lambda>(now, x). ErrWrite now x) ws) ?s1"
    by (simp add: run_Cons p)
  show ?case
    unfolding e using Cons.IH [OF ne] q1 err_write_effects(1,5) [where now = now and x = x and s = s]
    by (auto simp: p intro: err_only_trans)
qed

lemma err_block_events_frame:
  assumes "err_only s s'"
  shows "err_block_events s' = err_block_events s"
proof -
  note f = err_only_fields [OF assms]
  have "err_item_events s' = err_item_events s" by (rule err_item_events_frame) (simp_all add: f)
  moreover have "err_closer_events s' = err_closer_events s"
    by (rule err_closer_events_frame) (simp_all add: f)
  ultimately show ?thesis by (intro ext) (simp add: err_block_events_def)
qed

subsection \<open>The flush loop of a sink without a log\<close>

lemma err_dev_events_frame:
  "use_colour s' = use_colour s \<Longrightarrow> colours s' = colours s \<Longrightarrow>
   error (mccon_err s') = error (mccon_err s) \<Longrightarrow> user (mccon_err s') = user (mccon_err s) \<Longrightarrow>
   old (mccon_err s') = old (mccon_err s) \<Longrightarrow> err_dev_events s' = err_dev_events s"
  by (intro ext) (simp add: err_dev_events_def err_process_text_frame [of s' s])

lemma err_emit_item_nolog:
  assumes "log (mccon_err s) = None" and "NL \<notin> set x"
  shows "err_emit_item x s
           = Inr (s\<lparr>trace := trace s @ (if err_visible s then err_dev_events s [x] else [])\<rparr>)"
  using assms
  by (simp add: err_emit_item_def err_dev_events_def Let_def emit_def)

lemma err_loop_nolog:
  "log (mccon_err s) = None \<Longrightarrow> \<forall>x\<in>set q. NL \<notin> set x \<Longrightarrow> queue (mccon_err s) = q \<Longrightarrow>
   err_loop q s =
     (if err_visible s
      then Inl (AttributeError,
             s\<lparr>trace := trace s @ err_dev_events s q @ [DevWrite (old (mccon_err s)) [NL]],
               mccon_out := (mccon_out s)\<lparr>allowed := False\<rparr>,
               mccon_err := (mccon_err s)\<lparr>queue := []\<rparr>\<rparr>)
      else Inr (s\<lparr>mccon_out := (mccon_out s)\<lparr>allowed := True\<rparr>,
                 mccon_err := (mccon_err s)\<lparr>queue := []\<rparr>\<rparr>))"
proof (induction q arbitrary: s)
  case Nil
  have q: "(mccon_err s)\<lparr>queue := []\<rparr> = mccon_err s"
    using Nil.prems(3) [symmetric] by simp
  have v: "err_visible (set_allowed False s) = err_visible s"
    by (rule err_visible_frame) simp_all
  show ?case
    using Nil.prems(1)
    by (simp add: err_on_timeout_def v MCConErr_flush_def Let_def q err_dev_events_def)
       (simp add: emit_def set_allowed_def)
next
  case (Cons x rest)
  let ?s2 = "(set_allowed False s)\<lparr>mccon_err := (mccon_err (set_allowed False s))\<lparr>queue := rest\<rparr>\<rparr>"
  define s3 where "s3 = ?s2\<lparr>trace := trace ?s2 @ (if err_visible ?s2 then err_dev_events ?s2 [x] else [])\<rparr>"
  have lg: "log (mccon_err ?s2) = None" using Cons.prems by simp
  have nl: "NL \<notin> set x" using Cons.prems by simp
  have v2: "err_visible ?s2 = err_visible s" by (rule err_visible_frame) simp_all
  have v3: "err_visible s3 = err_visible s" by (rule err_visible_frame) (simp_all add: s3_def)
  have d2: "err_dev_events ?s2 = err_dev_events s" by (rule err_dev_events_frame) simp_all
  have d3: "err_dev_events s3 = err_dev_events s" by (rule err_dev_events_frame) (simp_all add: s3_def)
  have emit: "err_emit_item x ?s2 = Inr s3"
    unfolding s3_def by (rule err_emit_item_nolog [OF lg nl])
  have IH: "err_loop rest s3 =
     (if err_visible s3
      then Inl (AttributeError,
             s3\<lparr>trace := trace s3 @ err_dev_events s3 rest @ [DevWrite (old (mccon_err s3)) [NL]],
               mccon_out := (mccon_out s3)\<lparr>allowed := False\<rparr>,
               mccon_err := (mccon_err s3)\<lparr>queue := []\<rparr>\<rparr>)
      else Inr (s3\<lparr>mccon_out := (mccon_out s3)\<lparr>allowed := True\<rparr>,
                 mccon_err := (mccon_err s3)\<lparr>queue := []\<rparr>\<rparr>))"
    by (rule Cons.IH) (use Cons.prems in \<open>simp_all add: s3_def\<close>)
  have s3_eq: "s3 = s\<lparr>trace := trace s @ (if err_visible s then err_dev_events s [x] else []),
       mccon_out := (mccon_out s)\<lparr>allowed := False\<rparr>,
       mccon_err := (mccon_err s)\<lparr>queue := rest\<rparr>\<rparr>"
    unfolding s3_def v2 d2 by (simp add: set_allowed_def)
  have step: "err_loop (x # rest) s = err_loop rest s3"
    unfolding err_loop.simps Let_def emit by simp
  show ?case
    unfolding step IH v3 d3 by (simp add: s3_eq err_dev_events_def)
qed

lemma write_buffer_flush_nolog:
  assumes "log (mccon_err s) = None" and "\<forall>x\<in>set (queue (mccon_err s)). NL \<notin> set x"
    and "queue (mccon_err s) \<noteq> []" and "pa \<or> last_char (mccon_out s) = Some NL"
  shows "write_buffer pa s =
     s\<lparr>trace := trace s @
          (if err_visible s
           then err_dev_events s (queue (mccon_err s))
                @ [DevWrite (old (mccon_err s)) [NL], TraceDump (old (mccon_err s)) AttributeError]
           else []),
       mccon_out := (mccon_out s)\<lparr>allowed := True\<rparr>,
       mccon_err := (mccon_err s)\<lparr>queue := [], t := None\<rparr>\<rparr>"
proof -
  define s1 where "s1 = s\<lparr>mccon_err := (mccon_err s)\<lparr>t := None\<rparr>\<rparr>"
  have lg: "log (mccon_err s1) = None" and q: "queue (mccon_err s1) = queue (mccon_err s)"
    and nl: "\<forall>x\<in>set (queue (mccon_err s1)). NL \<notin> set x"
    using assms by (simp_all add: s1_def)
  have v: "err_visible s1 = err_visible s" by (rule err_visible_frame) (simp_all add: s1_def)
  have d: "err_dev_events s1 = err_dev_events s" by (rule err_dev_events_frame) (simp_all add: s1_def)
  have lc: "last_char (mccon_out s1) = last_char (mccon_out s)" by (simp add: s1_def)
  note loop = err_loop_nolog [OF lg nl refl, unfolded v d q]
  have wb: "write_buffer pa s =
      (case err_loop (queue (mccon_err s)) s1 of
         Inl (x, s2) \<Rightarrow> set_allowed True (emit (TraceDump (old (mccon_err s2)) x) s2)
       | Inr s2 \<Rightarrow> set_allowed True s2)"
    using assms(3,4) unfolding write_buffer_def Let_def s1_def [symmetric] q lc by auto
  show ?thesis
    unfolding wb loop by (simp add: s1_def emit_def set_allowed_def)
qed

subsection \<open>Deferred writes\<close>

text \<open>While \<^verbatim>\<open>allowed\<close> is false, a write whose text the formatter accepts only
  enqueues its record; the next write after \<^verbatim>\<open>allowed\<close> is true again drains it. The
  flush of the Error Sink adds nothing to the Output Sink's log writes or device.\<close>

lemma out_write_deferred_effects:
  assumes "\<not> allowed (mccon_out s)" and f: "MCConOut_process_text s x = Inr ft"
  defines "s1 \<equiv> s\<lparr>mccon_out := (mccon_out s)\<lparr>queue := queue (mccon_out s)
            @ [(file_only (mccon_out s), x, ft,
                (user (mccon_out s) \<and> user_mode s) \<or> \<not> user_mode s)]\<rparr>\<rparr>"
  shows "MCConOut_write (Some x) s = Inr s1"
    and "\<exists>s2. MCConOut_write None (set_allowed True s1) = Inr s2 \<and> queue (mccon_out s2) = []
           \<and> (log (mccon_out s) = Some h \<longrightarrow>
                log_writes OutSink (trace s2)
                  = log_writes OutSink (trace s) @ raw_texts (queue (mccon_out s)) @ [x])"
proof -
  show eq: "MCConOut_write (Some x) s = Inr s1"
    using assms(1) by (simp add: out_write_formatted [OF f] out_after_put_deferred out_put_def s1_def)
  have a: "allowed (mccon_out (set_allowed True s1))" by simp
  note e = out_after_put_effects [OF a]
  have "log_writes OutSink (trace (out_after_put (set_allowed True s1)))
      = log_writes OutSink (trace s) @ raw_texts (queue (mccon_out s)) @ [x]"
    if "log (mccon_out s) = Some h"
    using e(6) that by (simp add: s1_def raw_texts_def)
  then show "\<exists>s2. MCConOut_write None (set_allowed True s1) = Inr s2 \<and> queue (mccon_out s2) = []
           \<and> (log (mccon_out s) = Some h \<longrightarrow>
                log_writes OutSink (trace s2)
                  = log_writes OutSink (trace s) @ raw_texts (queue (mccon_out s)) @ [x])"
    using e(1) by (simp add: out_write_None)
qed

lemma write_buffer_out_silent:
  "log_writes OutSink (trace (write_buffer pa s)) = log_writes OutSink (trace s)"
  "old (mccon_err s) \<noteq> old (mccon_out s) \<Longrightarrow>
     filter (on_dev (old (mccon_out s))) (trace (write_buffer pa s))
       = filter (on_dev (old (mccon_out s))) (trace s)"
proof -
  show "log_writes OutSink (trace (write_buffer pa s)) = log_writes OutSink (trace s)"
    by (rule err_only_trace(1) [OF err_only_write_buffer])
  show "filter (on_dev (old (mccon_out s))) (trace (write_buffer pa s))
           = filter (on_dev (old (mccon_out s))) (trace s)"
    if "old (mccon_err s) \<noteq> old (mccon_out s)"
    using err_only_trace(2) [OF err_only_write_buffer, of "old (mccon_out s)" s pa] that by simp
qed

subsection \<open>The sample states\<close>

lemma demo_sys_fields:
  "allowed (mccon_out demo_sys)" "queue (mccon_out demo_sys) = []"
  "log (mccon_out demo_sys) = Some ''app.log''" "log (mccon_err demo_sys) = Some ''app.log''"
  "queue (mccon_err demo_sys) = []" "print_header (mccon_err demo_sys)"
  "old (mccon_out demo_sys) = StdOut" "old (mccon_err demo_sys) = StdErr"
  "trace demo_sys = []" "\<not> user_mode demo_sys" "timers demo_sys = []"
  "t (mccon_err demo_sys) = None" "\<not> user (mccon_out demo_sys)"
  "\<not> file_only (mccon_out demo_sys)" "\<not> file_only (mccon_err demo_sys)"
  "last_char (mccon_out demo_sys) = None" "\<not> use_colour demo_sys"
  by (simp_all add: demo_sys_def boot.defs boot0_def new_MCConOut_def new_MCConErr_def)

lemma demo_sys_visible: "err_visible demo_sys"
  by (simp add: err_visible_def demo_sys_fields)

lemma demo_sys_quiet_err_fields:
  "allowed (mccon_out demo_sys_quiet_err)" "queue (mccon_out demo_sys_quiet_err) = []"
  "log (mccon_out demo_sys_quiet_err) = Some ''app.log''" "log (mccon_err demo_sys_quiet_err) = None"
  "queue (mccon_err demo_sys_quiet_err) = []" "print_header (mccon_err demo_sys_quiet_err)"
  "old (mccon_out demo_sys_quiet_err) = StdOut" "old (mccon_err demo_sys_quiet_err) = StdErr"
  "trace demo_sys_quiet_err = []" "\<not> user_mode demo_sys_quiet_err" "timers demo_sys_quiet_err = []"
  "t (mccon_err demo_sys_quiet_err) = None" "\<not> file_only (mccon_err demo_sys_quiet_err)"
  "last_char (mccon_out demo_sys_quiet_err) = None" "\<not> use_colour demo_sys_quiet_err"
  by (simp_all add: demo_sys_quiet_err_def boot.defs boot0_def new_MCConOut_def new_MCConErr_def)

subsection \<open>An error block of a sink with a log\<close>

text \<open>Error writes that start on an empty queue, with headers enabled, queue one header and
  then the fragments. When the Error Sink has a log and is visible, the flush of that
  queue adds events of the Error Sink only, and its device receives the formatted header,
  the formatted fragments and the closing line terminator.\<close>

lemma logged_block_on_screen:
  assumes "queue (mccon_err s) = []" and "print_header (mccon_err s)"
  shows "queue (mccon_err (run (map (\<lambda>(now, x). ErrWrite now x) ((nowf, xf) # ws)) s))
           = stderr_header nowf s # xf # map snd ws
         \<and> (log (mccon_err s) = Some h \<and> err_visible s \<longrightarrow>
              (\<exists>blk. trace (write_buffer True
                               (run (map (\<lambda>(now, x). ErrWrite now x) ((nowf, xf) # ws)) s))
                        = trace s @ blk
                    \<and> list_all (is_err_event (old (mccon_err s))) blk
                    \<and> dev_writes (old (mccon_err s)) blk
                        = map (MCConErr_process_text s) (stderr_header nowf s # xf # map snd ws)
                          @ [[NL]]))"
proof -
  let ?s1 = "MCConErr_write nowf xf s"
  let ?s' = "run (map (\<lambda>(now, x). ErrWrite now x) ((nowf, xf) # ws)) s"
  let ?q = "stderr_header nowf s # xf # map snd ws"
  have q1: "queue (mccon_err ?s1) = [stderr_header nowf s, xf]"
    using assms by (simp add: err_write_effects)
  then have ne: "queue (mccon_err ?s1) \<noteq> []" by simp
  have e: "?s' = run (map (\<lambda>(now, x). ErrWrite now x) ws) ?s1" by (simp add: run_Cons)
  note r = run_err_writes [OF ne, of ws]
  have q: "queue (mccon_err ?s') = ?q" unfolding e using r q1 by simp
  have tr: "trace ?s' = trace s" unfolding e using r by (simp add: err_write_effects)
  have eo: "err_only s ?s'"
    unfolding e using r err_write_effects(5) [of s nowf xf] by (blast intro: err_only_trans)
  have flush: "\<exists>blk. trace (write_buffer True ?s') = trace s @ blk
                    \<and> list_all (is_err_event (old (mccon_err s))) blk
                    \<and> dev_writes (old (mccon_err s)) blk = map (MCConErr_process_text s) ?q @ [[NL]]"
    if lg: "log (mccon_err s) = Some h" and vis: "err_visible s"
  proof -
    have lg': "log (mccon_err ?s') = Some h" using err_only_fields(7) [OF eo] lg by simp
    have ne': "queue (mccon_err ?s') \<noteq> []" using q by simp
    have "trace (write_buffer True ?s') = trace ?s' @ err_block_events ?s' h (queue (mccon_err ?s'))"
      using write_buffer_flush [OF lg' ne', of True] by simp
    then have "trace (write_buffer True ?s') = trace s @ err_block_events s h ?q"
      by (simp only: tr q err_block_events_frame [OF eo])
    moreover have "list_all (is_err_event (old (mccon_err s))) (err_block_events s h ?q)"
      by (rule err_block_events_err)
    moreover have "dev_writes (old (mccon_err s)) (err_block_events s h ?q)
        = map (MCConErr_process_text s) ?q @ [[NL]]"
      using vis by (simp add: err_block_events_dev)
    ultimately show ?thesis by blast
  qed
  show ?thesis using q flush by blast
qed

section \<open>The claims\<close>

subsection \<open>Initialisation and teardown\<close>

text \<open>Claim C1 says that \<^verbatim>\<open>init\<close> with colour disabled and no log path completes
  normally, and that a write of \<^verbatim>\<open>"hello\n"\<close> then reaches the device and no log. The
  code does not get that far: with \<^verbatim>\<open>log=None\<close> the local variable \<^verbatim>\<open>log_file\<close> of
  \<^verbatim>\<open>init\<close> is unbound when the sinks are constructed, and \<^verbatim>\<open>init\<close> raises
  \<^verbatim>\<open>UnboundLocalError\<close> before any sink exists. (On sinks built without a log the write
  itself behaves as the claim says, see \<open>scenario_A_write\<close>.)\<close>

theorem init_without_log_raises:
  "init False None ''mccon'' True True boot0
     = Inl (UnboundLocalError,
            Inl (boot0\<lparr>stat_highlight := [(''STAT'', ''''), (''WARN'', ''''), (''ERRO'', '''')]\<rparr>))"
  by (simp add: init_def boot0_def plain_scheme_def Let_def)

text \<open>Claim C8 says that \<^verbatim>\<open>close()\<close> closes the log file handle whenever \<^verbatim>\<open>init\<close>
  opened one. In the code the handle that \<^verbatim>\<open>init\<close> opens lives in a local variable and
  in the sinks; the module-level \<^verbatim>\<open>log_file\<close> that \<^verbatim>\<open>close()\<close> tests stays
  \<^verbatim>\<open>None\<close>. After \<^verbatim>\<open>init(colour=False, log='app.log')\<close> and \<^verbatim>\<open>close()\<close> the trace holds
  the opening of the file, the announcement and three flushes, and no closing.\<close>

theorem close_leaves_log_open:
  "(case init False (Some ''app.log'') ''mccon'' True True boot0 of
      Inl _ \<Rightarrow> None
    | Inr s \<Rightarrow> (case close now tb s of Inl _ \<Rightarrow> None | Inr s' \<Rightarrow> Some (log_file s', trace s')))
   = Some (LNone,
       [LogOpen ''app.log'',
        LogWrite OutSink ''app.log'' ''mccon: begin logging to app.log'',
        DevWrite StdOut ''mccon: begin logging to app.log'',
        LogWrite OutSink ''app.log'' [NL], DevWrite StdOut [NL], LogFlush ''app.log'',
        LogFlush ''app.log'', LogFlush ''app.log''])"
  by (simp add: init_def boot0_def plain_scheme_def Let_def emit_def boot.defs
      new_MCConOut_def new_MCConErr_def with_ctx_def user_cm_def highlight_cm_def print_stmt_def
      MCConOut_write_def out_after_put_def out_put_def MCConOut_process_text_def
      out_emit_record_def MCConOut_flush_def write_buffer_def close_def MCConOut_close_def
      MCConErr_close_def MCConErr_flush_def none_map_def)

text \<open>Claim C9 says that \<^verbatim>\<open>flush()\<close> of either sink does nothing, and does not fail, when
  the sink has no log file. \<^verbatim>\<open>MCConOut.flush\<close> tests \<^verbatim>\<open>self.log\<close>; \<^verbatim>\<open>MCConErr.flush\<close>
  does not. After \<^verbatim>\<open>init(colour=False, log='app.log', log_stderr=False)\<close> the Error
  Sink's \<^verbatim>\<open>flush()\<close> raises \<^verbatim>\<open>AttributeError\<close>, the Output Sink's flushes the file, and
  \<^verbatim>\<open>close()\<close> ends with that exception.\<close>

theorem err_flush_without_log_raises:
  "(case init False (Some ''app.log'') ''mccon'' False True boot0 of
      Inl _ \<Rightarrow> None
    | Inr s \<Rightarrow> Some (MCConErr_flush s = Inl (AttributeError, s),
                    MCConOut_flush s = emit (LogFlush ''app.log'') s,
                    map_sum fst (\<lambda>_. ()) (close now tb s)))
   = Some (True, True, Inl AttributeError)"
  by (simp add: init_def boot0_def plain_scheme_def Let_def emit_def boot.defs
      new_MCConOut_def new_MCConErr_def with_ctx_def user_cm_def highlight_cm_def print_stmt_def
      MCConOut_write_def out_after_put_def out_put_def MCConOut_process_text_def
      out_emit_record_def MCConOut_flush_def write_buffer_def close_def MCConOut_close_def
      MCConErr_close_def MCConErr_flush_def none_map_def)

subsection \<open>Scoped switches\<close>




subsection \<open>The Output Sink\<close>

text \<open>Claim C10: \<^verbatim>\<open>MCConOut.write(None)\<close> does not fail, enqueues no record and writes
  nothing for it; when \<^verbatim>\<open>allowed\<close> is true it still drains the records queued before.
  In every state the call returns (it never reaches the formatter, and the only other code
  it reaches that can raise is inside the \<^verbatim>\<open>try\<close> of \<^verbatim>\<open>write_buffer\<close>). While
  \<^verbatim>\<open>allowed\<close> is false the state is unchanged. Otherwise the queue is empty afterwards,
  the Output Sink's log writes are the raw texts of the records that were queued, and its
  device receives the formatted texts of those of them that are shown.\<close>

theorem write_None:
  "\<not> isl (MCConOut_write None s)
   \<and> (\<not> allowed (mccon_out s) \<longrightarrow> MCConOut_write None s = Inr s)
   \<and> (allowed (mccon_out s) \<longrightarrow>
        queue (mccon_out (res_state (MCConOut_write None s))) = []
        \<and> log_writes OutSink (trace (res_state (MCConOut_write None s)))
            = log_writes OutSink (trace s)
              @ (case log (mccon_out s) of None \<Rightarrow> [] | Some h \<Rightarrow> raw_texts (queue (mccon_out s)))
        \<and> (old (mccon_err s) \<noteq> old (mccon_out s) \<longrightarrow>
             dev_writes (old (mccon_out s)) (trace (res_state (MCConOut_write None s)))
               = dev_writes (old (mccon_out s)) (trace s) @ shown_texts (queue (mccon_out s))))"
proof (cases "allowed (mccon_out s)")
  case False
  then show ?thesis by (simp add: out_write_None out_after_put_deferred)
next
  case True
  show ?thesis
    using out_after_put_effects(1,6,7) [OF True] True
    by (simp add: out_write_None split: option.splits)
qed

theorem write_None_witness:
  "allowed (mccon_out demo_sys)
   \<and> \<not> isl (MCConOut_write None demo_sys)
   \<and> queue (mccon_out (res_state (MCConOut_write None demo_sys))) = []
   \<and> log_writes OutSink (trace (res_state (MCConOut_write None demo_sys))) = []
   \<and> dev_writes StdOut (trace (res_state (MCConOut_write None demo_sys))) = []
   \<and> \<not> allowed (mccon_out (set_allowed False demo_sys))
   \<and> MCConOut_write None (set_allowed False demo_sys) = Inr (set_allowed False demo_sys)"
  using write_None [where s = demo_sys]
    write_None [where s = "set_allowed False demo_sys"]
  by (simp add: demo_sys_fields raw_texts_def shown_texts_def)

text \<open>Claim C3 says that with \<^verbatim>\<open>user_mode\<close> true and the Output Sink's \<^verbatim>\<open>user\<close> flag
  not set, a write sends nothing to the real device but appends the raw text to the log if
  there is one. \<^verbatim>\<open>MCConOut.write\<close> formats the text before it queues it, and the
  formatter raises \<^verbatim>\<open>ValueError\<close> when colour is enabled and the empty string is a
  highlighted word (\<open>process_text_cases\<close>). After \<^verbatim>\<open>init(colour=True, log='app.log')\<close>,
  with \<^verbatim>\<open>user_mode = True\<close> and inside \<^verbatim>\<open>with highlight([''], []):\<close>, the write of
  \<^verbatim>\<open>"background\n"\<close> raises and leaves the state as it was: no record is queued, and the
  log holds the announcement of \<^verbatim>\<open>init\<close> and nothing else. (When the formatter returns,
  the write is logged and hidden as the claim says, see \<open>out_write_formatted_effects\<close>.)\<close>

theorem hidden_write_not_logged:
  "(case init True (Some ''app.log'') ''mccon'' True True boot0 of
      Inl _ \<Rightarrow> None
    | Inr s \<Rightarrow>
       (let s1 = entered (Highlight [''''] []) (s\<lparr>user_mode := True\<rparr>)
        in Some (user_mode s1, user (mccon_out s1), log (mccon_out s1),
                 MCConOut_write (Some (''background'' @ [NL])) s1 = Inl (ValueError, s1),
                 queue (mccon_out s1), log_writes OutSink (trace s1))))
   = Some (True, False, Some ''app.log'', True, [],
           [''mccon: begin logging to app.log'', [NL]])"
  by code_simp


subsection \<open>The Error Sink\<close>

text \<open>Claim C6 says that when the flush loop's dequeue times out, a trailing line
  terminator is written to the log, and to the screen if the sink is visible. The code
  writes the terminator to the log under the same test of visibility as to the screen.
  With \<^verbatim>\<open>user_mode\<close> true and the Error Sink's \<^verbatim>\<open>user\<close> flag not set, the flush of the
  queued fragment \<^verbatim>\<open>"boom"\<close> by a sink that has a log writes the fragment to the log and
  nothing else: no terminator reaches the log.\<close>

theorem terminator_not_logged_when_hidden:
  "log (mccon_err (err_put ''boom'' (demo_sys\<lparr>user_mode := True\<rparr>))) = Some ''app.log''
   \<and> queue (mccon_err (err_put ''boom'' (demo_sys\<lparr>user_mode := True\<rparr>))) = [''boom'']
   \<and> trace (write_buffer True (err_put ''boom'' (demo_sys\<lparr>user_mode := True\<rparr>)))
       = [LogWrite ErrSink ''app.log'' ''boom'']
   \<and> allowed (mccon_out (write_buffer True (err_put ''boom'' (demo_sys\<lparr>user_mode := True\<rparr>))))
   \<and> queue (mccon_err (write_buffer True (err_put ''boom'' (demo_sys\<lparr>user_mode := True\<rparr>)))) = []"
  by (simp add: write_buffer_def err_put_def demo_sys_def boot.defs boot0_def new_MCConOut_def
      new_MCConErr_def err_emit_item_def err_on_timeout_def err_visible_def Let_def emit_def
      set_allowed_def MCConErr_flush_def)

text \<open>Claim C6 as amended: when the flush loop's dequeue times out, the block is closed by
  the loop itself: a trailing line terminator is written to the log and to the screen if
  the sink is visible, and to neither if it is not; the loop stops, and the Output Sink's
  \<^verbatim>\<open>allowed\<close> flag is true again. The loop runs once \<^verbatim>\<open>write_buffer\<close> finds the queue
  not empty and does not defer. It always ends with \<^verbatim>\<open>allowed\<close> true, no timer reference
  and no new timer. With a log for the Error Sink the dequeue times out after the last
  item, and the trace ends with the terminator in the log, the terminator on the device
  and a flush, if visible, and with the last item if not. Without a log the timeout is
  reached when no queued item holds a line terminator, and the terminator reaches the
  device if visible (the flush that follows it then raises, and the exception trace is
  dumped on the device).\<close>

theorem quiescence_closure:
  assumes "queue (mccon_err s) \<noteq> []" and "pa \<or> last_char (mccon_out s) = Some NL"
  shows "allowed (mccon_out (write_buffer pa s))
         \<and> t (mccon_err (write_buffer pa s)) = None
         \<and> timers (write_buffer pa s) = timers s
         \<and> (log (mccon_err s) = Some h \<longrightarrow>
              queue (mccon_err (write_buffer pa s)) = []
              \<and> trace (write_buffer pa s)
                  = trace s @ concat (map (err_item_events s h) (queue (mccon_err s)))
                    @ (if err_visible s
                       then [LogWrite ErrSink h [NL], DevWrite (old (mccon_err s)) [NL], LogFlush h]
                       else []))
         \<and> (log (mccon_err s) = None \<and> (\<forall>x\<in>set (queue (mccon_err s)). NL \<notin> set x) \<longrightarrow>
              queue (mccon_err (write_buffer pa s)) = []
              \<and> trace (write_buffer pa s)
                  = trace s
                    @ (if err_visible s
                       then err_dev_events s (queue (mccon_err s))
                            @ [DevWrite (old (mccon_err s)) [NL],
                               TraceDump (old (mccon_err s)) AttributeError]
                       else []))"
  using write_buffer_allowed_flush [OF assms] write_buffer_flush_timers [OF assms]
    write_buffer_flush [OF _ assms, of h] write_buffer_flush_nolog [OF _ _ assms]
  by (simp add: err_block_events_def err_closer_events_def)

theorem quiescence_closure_witness:
  "queue (mccon_err (err_put ''boom'' demo_sys)) \<noteq> []
   \<and> log (mccon_err (err_put ''boom'' demo_sys)) = Some ''app.log''
   \<and> allowed (mccon_out (write_buffer True (err_put ''boom'' demo_sys)))
   \<and> trace (write_buffer True (err_put ''boom'' demo_sys))
       = [LogWrite ErrSink ''app.log'' ''boom'', DevWrite StdErr ''boom'',
          LogWrite ErrSink ''app.log'' [NL], DevWrite StdErr [NL], LogFlush ''app.log'']
   \<and> log (mccon_err (err_put ''boom'' demo_sys_quiet_err)) = None
   \<and> trace (write_buffer True (err_put ''boom'' demo_sys_quiet_err))
       = [DevWrite StdErr ''boom'', DevWrite StdErr [NL], TraceDump StdErr AttributeError]"
  using quiescence_closure [where s = "err_put ''boom'' demo_sys" and pa = True and h = "''app.log''"]
    quiescence_closure [where s = "err_put ''boom'' demo_sys_quiet_err" and pa = True
      and h = "''app.log''"]
  by (simp add: err_put_def demo_sys_fields demo_sys_quiet_err_fields err_item_events_def
      err_dev_events_def err_visible_def MCConErr_process_text_def prefix_lines_def)

text \<open>Claim C7 says that N error writes that arrive while the queue stays non-empty, with
  headers enabled, enqueue exactly one header before the first fragment, so that the
  flushed block on screen is that header followed by the N fragments. After
  \<^verbatim>\<open>init(colour=False, log='app.log', log_stderr=False)\<close> the Error Sink has no log. Two
  error writes, \<^verbatim>\<open>"err1"\<close> and \<^verbatim>\<open>"err2\n"\<close>, queue the header (line terminator, prefix,
  separator, the time cut to milliseconds, separator, empty header message, line
  terminator) and the two fragments, and start one timer. When the timer fires, the flush
  writes the header to the screen; the header holds a line terminator, so the loop calls
  \<^verbatim>\<open>self.flush()\<close>, which raises \<^verbatim>\<open>AttributeError\<close> on the missing log (claim C9). The
  loop is left, the exception trace is dumped on the screen, and both fragments stay in the
  queue: the block on screen is the header alone. (With a log, the block is as the claim
  says, see \<open>logged_block_on_screen\<close>.)\<close>

theorem error_block_cut_short_without_log:
  "(case init False (Some ''app.log'') ''mccon'' False True boot0 of
      Inl _ \<Rightarrow> None
    | Inr s \<Rightarrow>
       (let s1 = run [ErrWrite ''26-11-03 10:00:00.123456'' ''err1'',
                      ErrWrite ''26-11-03 10:00:00.124789'' (''err2'' @ [NL])] s;
            s2 = run [TimerFire 0] s1
        in Some (queue (mccon_err s1), timers s1, trace s2, queue (mccon_err s2))))
   = Some ([[NL] @ ''mccon|26-11-03 10:00:00.123|'' @ [NL], ''err1'', ''err2'' @ [NL]],
           [False],
           [LogOpen ''app.log'',
            LogWrite OutSink ''app.log'' ''mccon: begin logging to app.log'',
            DevWrite StdOut ''mccon: begin logging to app.log'',
            LogWrite OutSink ''app.log'' [NL], DevWrite StdOut [NL], LogFlush ''app.log'',
            DevWrite StdErr ([NL] @ ''+    mccon|26-11-03 10:00:00.123|'' @ [NL] @ ''+    ''),
            TraceDump StdErr AttributeError],
           [''err1'', ''err2'' @ [NL]])"
  by (simp add: init_def boot0_def plain_scheme_def Let_def emit_def boot.defs
      new_MCConOut_def new_MCConErr_def with_ctx_def user_cm_def highlight_cm_def print_stmt_def
      MCConOut_write_def out_after_put_def out_put_def MCConOut_process_text_def
      out_emit_record_def MCConOut_flush_def write_buffer_def MCConErr_flush_def none_map_def
      run_def MCConErr_write_def err_put_def stderr_header_def logprefix_def SEPARATOR_def
      start_timer_def err_emit_item_def err_visible_def MCConErr_process_text_def
      prefix_lines_def set_allowed_def)

subsection \<open>Log completeness\<close>

text \<open>Claim C2 says that every raw text passed to a sink's write operation is written to
  the log exactly once and in submission order, whatever the visibility flags are. A text
  for which the Output Sink's formatter raises is lost: \<^verbatim>\<open>MCConOut.write\<close> formats
  before it queues, and only queued records are logged. In
  \<^verbatim>\<open>init(colour=True, log='app.log', default_prefix='')\<close> the announcement is printed
  inside \<^verbatim>\<open>highlight([log, default_prefix], [])\<close>, so the empty prefix is a highlighted
  word: the write of \<^verbatim>\<open>": begin logging to app.log"\<close> raises \<^verbatim>\<open>ValueError\<close>, and
  \<^verbatim>\<open>init\<close> ends with it. The file has been opened and nothing is written to it; since no
  scoped switch is reset, the empty word stays highlighted, and the texts written to the
  installed sink afterwards are lost in the same way. (A text that the formatter accepts is
  logged once, see \<open>out_write_formatted_effects\<close>; the flush of the Error Sink logs its
  queue in order, see \<open>write_buffer_flush\<close>.)\<close>

theorem announcement_not_logged:
  "(case init True (Some ''app.log'') '''' True True boot0 of
      Inl (x, Inr s) \<Rightarrow>
        Some (x, trace s, queue (mccon_out s),
              log_writes OutSink (trace (run [OutWrite (Some ''started''), OutWrite (Some [NL])] s)))
    | _ \<Rightarrow> None)
   = Some (ValueError, [LogOpen ''app.log''], [], [])"
  by (simp add: init_def Let_def emit_def boot.defs boot0_def
      new_MCConOut_def new_MCConErr_def with_ctx_def user_cm_def highlight_cm_def print_stmt_def
      none_map_def out_write_raises format_raises_def highlight_words_def run_def)

end
